theory Spec2Isabelle
  imports Main "HOL-Library.Char_ord" "HOL-Library.List_Lexorder"
begin

section \<open>Values and exceptions of the Python program\<close>

text \<open>
  The script \<^verbatim>\<open>generate_dashboard.py\<close> works on the values that \<^verbatim>\<open>response.json()\<close>
  returns: \<^verbatim>\<open>None\<close>, booleans, integers, strings, lists and dictionaries. A dictionary is
  an association list of its items (the keys of a Python dictionary are distinct, so
  \<open>map_of\<close> is the lookup). Strings are 8-bit character lists; floating point numbers
  are left out.
\<close>

datatype json =
    JNull
  | JBool bool
  | JNum int
  | JStr string
  | JArr "json list"
  | JObj "(string \<times> json) list"

text \<open>The exceptions the script can meet; each is a value of the result type.\<close>

datatype error =
    AttributeError
  | TypeError
  | KeyError
  | ValueError
  | FileNotFoundError

text \<open>Python's truth value of an object, as \<^verbatim>\<open>if x:\<close> and \<^verbatim>\<open>not x\<close> read it.\<close>

fun truthy :: "json \<Rightarrow> bool" where
  "truthy JNull = False"
| "truthy (JBool b) = b"
| "truthy (JNum n) = (n \<noteq> 0)"
| "truthy (JStr s) = (s \<noteq> [])"
| "truthy (JArr xs) = (xs \<noteq> [])"
| "truthy (JObj kvs) = (kvs \<noteq> [])"

text \<open>
  \<^verbatim>\<open>d.get(k, default)\<close>: the value stored under \<open>k\<close>, the default when the key is
  missing, and \<^verbatim>\<open>AttributeError\<close> when \<open>d\<close> is not a dictionary (\<^verbatim>\<open>None\<close>, a string, a
  number and a list have no method \<^verbatim>\<open>get\<close>).
\<close>

fun dict_get :: "json \<Rightarrow> string \<Rightarrow> json \<Rightarrow> error + json" where
  "dict_get (JObj kvs) k dflt = Inr (case map_of kvs k of None \<Rightarrow> dflt | Some v \<Rightarrow> v)"
| "dict_get _ k dflt = Inl AttributeError"

section \<open>Status tables and classification\<close>

text \<open>
  \<^verbatim>\<open>str.lower()\<close> on the letters A to Z; every entry of the status tables is ASCII.
  Python lowers the letters outside ASCII by the tables of Unicode, which are not part
  of the model: there a character outside A to Z is its own lower case.
\<close>

definition lower_char :: "char \<Rightarrow> char" where
  "lower_char c =
     (case map_of (zip ''ABCDEFGHIJKLMNOPQRSTUVWXYZ'' ''abcdefghijklmnopqrstuvwxyz'') c of
        None \<Rightarrow> c
      | Some l \<Rightarrow> l)"

definition lower :: "string \<Rightarrow> string" where
  "lower s = map lower_char s"

definition COMPLETION_STATUSES :: "string list" where
  "COMPLETION_STATUSES =
     [''Done'', ''DONE'', ''Ready for Prod Release'', ''Pending Deployment'',
      ''Ready for Deploy/Push'', ''PM Review'', ''Ready for Review'', ''Ready for UAT'',
      ''Ready for Prod'']"

text \<open>The dictionary \<^verbatim>\<open>STATUS_GROUPS\<close>, in insertion order (the order \<^verbatim>\<open>.items()\<close> yields).\<close>

definition STATUS_GROUPS :: "(string \<times> string list) list" where
  "STATUS_GROUPS =
     [(''Not Started'', [''To Do'', ''Scoping'']),
      (''Blocked'', [''Blocked'']),
      (''Dev In Prog'', [''In Progress'', ''Code Review'', ''Fix Required'']),
      (''QA'', [''In QA'', ''QA In Progress'', ''Ready for QA'']),
      (''Done'', COMPLETION_STATUSES)]"

text \<open>
  The loop \<^verbatim>\<open>for group, statuses in STATUS_GROUPS.items()\<close> of \<^verbatim>\<open>get_status_group\<close>:
  the first group one of whose statuses, lowered, equals the lowered name.
\<close>

fun status_group_loop :: "(string \<times> string list) list \<Rightarrow> string \<Rightarrow> string" where
  "status_group_loop [] status_lower = ''Other''"
| "status_group_loop ((grp, statuses) # rest) status_lower =
     (if list_ex (\<lambda>s. lower s = status_lower) statuses then grp
      else status_group_loop rest status_lower)"

text \<open>
  \<^verbatim>\<open>get_status_group(status_name)\<close>. A false value gives \<^verbatim>\<open>'Other'\<close>; any other value
  that is not a string has no \<^verbatim>\<open>lower\<close> and raises \<^verbatim>\<open>AttributeError\<close>.
\<close>

definition get_status_group :: "json \<Rightarrow> error + string" where
  "get_status_group status_name =
     (if \<not> truthy status_name then Inr ''Other''
      else case status_name of
          JStr s \<Rightarrow> Inr (status_group_loop STATUS_GROUPS (lower s))
        | _ \<Rightarrow> Inl AttributeError)"

text \<open>
  \<^verbatim>\<open>is_completed(status)\<close>: \<^verbatim>\<open>status in COMPLETION_STATUSES\<close>. The list holds strings
  only, and a string equals no value of another type.
\<close>

definition is_completed :: "json \<Rightarrow> bool" where
  "is_completed status =
     (case status of JStr s \<Rightarrow> s \<in> set COMPLETION_STATUSES | _ \<Rightarrow> False)"

section \<open>Dates\<close>

text \<open>
  Every \<^verbatim>\<open>datetime\<close> object of the script is a calendar date at midnight
  (\<^verbatim>\<open>datetime(2026, 1, 7)\<close>, or the result of \<^verbatim>\<open>strptime\<close> with the format
  \<^verbatim>\<open>'%Y-%m-%d'\<close>), so a value is its year, month and day.
\<close>

datatype datetime = Datetime (year: nat) (month: nat) (day: nat)

text \<open>\<^verbatim>\<open>calendar.isleap\<close>, \<^verbatim>\<open>calendar.mdays\<close> and \<^verbatim>\<open>calendar.monthrange\<close> (its second component).\<close>

definition isleap :: "nat \<Rightarrow> bool" where
  "isleap y = (y mod 4 = 0 \<and> (y mod 100 \<noteq> 0 \<or> y mod 400 = 0))"

definition mdays :: "nat list" where
  "mdays = [0, 31, 28, 31, 30, 31, 30, 31, 31, 30, 31, 30, 31]"

definition monthrange :: "nat \<Rightarrow> nat \<Rightarrow> error + nat" where
  "monthrange y m =
     (if \<not> (1 \<le> m \<and> m \<le> 12) then Inl ValueError
      else Inr (mdays ! m + (if m = 2 \<and> isleap y then 1 else 0)))"

text \<open>
  The constructor \<^verbatim>\<open>datetime(year, month, day)\<close>: \<^verbatim>\<open>ValueError\<close> unless the year is in
  1..9999, the month in 1..12 and the day in 1..the length of the month.
\<close>

definition days_in_month :: "nat \<Rightarrow> nat \<Rightarrow> nat" where
  "days_in_month y m = (if m = 2 \<and> isleap y then 29 else mdays ! m)"

definition datetime :: "nat \<Rightarrow> nat \<Rightarrow> nat \<Rightarrow> error + datetime" where
  "datetime y m d =
     (if \<not> (1 \<le> y \<and> y \<le> 9999) then Inl ValueError
      else if \<not> (1 \<le> m \<and> m \<le> 12) then Inl ValueError
      else if \<not> (1 \<le> d \<and> d \<le> days_in_month y m) then Inl ValueError
      else Inr (Datetime y m d))"

text \<open>The comparisons \<^verbatim>\<open>a <= b\<close> and \<^verbatim>\<open>a < b\<close> of two \<^verbatim>\<open>datetime\<close> objects.\<close>

definition dt_le :: "datetime \<Rightarrow> datetime \<Rightarrow> bool" where
  "dt_le a b =
     (year a < year b \<or> (year a = year b \<and>
        (month a < month b \<or> (month a = month b \<and> day a \<le> day b))))"

definition dt_less :: "datetime \<Rightarrow> datetime \<Rightarrow> bool" where
  "dt_less a b =
     (year a < year b \<or> (year a = year b \<and>
        (month a < month b \<or> (month a = month b \<and> day a < day b))))"

text \<open>
  \<^verbatim>\<open>strftime\<close> with the formats \<^verbatim>\<open>'%Y-%m-%d'\<close> and \<^verbatim>\<open>'%B %Y'\<close>. The month and the day
  are printed with two digits; the year is printed with four digits, which is what
  every platform prints for the years 1000 to 9999 (below 1000 the C library decides
  whether the year is padded). The month names are those of the C locale.
\<close>

definition digit_char :: "nat \<Rightarrow> char" where
  "digit_char n = ''0123456789'' ! n"

definition pad2 :: "nat \<Rightarrow> string" where
  "pad2 n = [digit_char (n div 10 mod 10), digit_char (n mod 10)]"

definition pad4 :: "nat \<Rightarrow> string" where
  "pad4 n = [digit_char (n div 1000 mod 10), digit_char (n div 100 mod 10),
             digit_char (n div 10 mod 10), digit_char (n mod 10)]"

definition month_names :: "string list" where
  "month_names = [[], ''January'', ''February'', ''March'', ''April'', ''May'', ''June'',
     ''July'', ''August'', ''September'', ''October'', ''November'', ''December'']"

definition strftime_ymd :: "datetime \<Rightarrow> string" where
  "strftime_ymd dt = pad4 (year dt) @ ''-'' @ pad2 (month dt) @ ''-'' @ pad2 (day dt)"

definition strftime_BY :: "datetime \<Rightarrow> string" where
  "strftime_BY dt = month_names ! month dt @ '' '' @ pad4 (year dt)"

section \<open>The interval generator\<close>

definition START_DATE :: datetime where
  "START_DATE = Datetime 2026 1 7"

definition END_DATE :: datetime where
  "END_DATE = Datetime 2026 3 31"

text \<open>The dictionary with the keys \<^verbatim>\<open>start\<close>, \<^verbatim>\<open>end\<close> and \<^verbatim>\<open>label\<close> that the generator appends.\<close>

record interval =
  iv_start :: string
  iv_end :: string
  iv_label :: string

text \<open>
  The \<^verbatim>\<open>while current <= END_DATE\<close> loop of \<^verbatim>\<open>generate_intervals\<close>, with the two module
  constants as parameters. The constructor calls of the body can raise: the step from
  December 9999 leaves the range of \<^verbatim>\<open>datetime\<close>.
\<close>

function intervals_loop :: "datetime \<Rightarrow> datetime \<Rightarrow> interval list \<Rightarrow> error + interval list" where
  "intervals_loop end_date current intervals =
     (if dt_le current end_date then
        (case monthrange (year current) (month current) of
           Inl e \<Rightarrow> Inl e
         | Inr last_day \<Rightarrow>
        (case datetime (year current) (month current) last_day of
           Inl e \<Rightarrow> Inl e
         | Inr month_end0 \<Rightarrow>
           let month_end = (if dt_less end_date month_end0 then end_date else month_end0);
               month_name = strftime_BY current;
               intervals' = intervals @
                 [\<lparr>iv_start = strftime_ymd current, iv_end = strftime_ymd month_end,
                   iv_label = month_name\<rparr>]
           in (case (if month current = 12 then datetime (year current + 1) 1 1
                     else datetime (year current) (month current + 1) 1) of
                 Inl e \<Rightarrow> Inl e
               | Inr next \<Rightarrow> intervals_loop end_date next intervals')))
      else Inr intervals)"
  by pat_completeness auto
termination
  by (relation "measure (\<lambda>(end_date, current, intervals).
        (10000 - year current) * 13 + (13 - month current))")
     (auto simp: datetime_def monthrange_def split: if_splits)

definition generate_intervals :: "error + interval list" where
  "generate_intervals = intervals_loop END_DATE START_DATE []"

text \<open>
  What the specification asks of the generator, in closed form, to be compared with the
  loop: the months are counted from year 0 (\<open>month_index\<close>), interval number \<open>k\<close> belongs
  to the month \<open>k\<close> months after the month of the start date, it begins on the start date
  (\<open>k = 0\<close>) or on the first day of its month, it ends on the last day of its month or
  on the end date if that comes first, and its label is the month's name and year.
\<close>

definition valid_datetime :: "datetime \<Rightarrow> bool" where
  "valid_datetime dt = (datetime (year dt) (month dt) (day dt) = Inr dt)"

definition month_index :: "datetime \<Rightarrow> nat" where
  "month_index dt = year dt * 12 + (month dt - 1)"

definition first_of_month :: "nat \<Rightarrow> datetime" where
  "first_of_month i = Datetime (i div 12) (i mod 12 + 1) 1"

definition last_of_month :: "nat \<Rightarrow> datetime" where
  "last_of_month i =
     Datetime (i div 12) (i mod 12 + 1) (days_in_month (i div 12) (i mod 12 + 1))"

definition dt_min :: "datetime \<Rightarrow> datetime \<Rightarrow> datetime" where
  "dt_min a b = (if dt_less b a then b else a)"

definition spec_interval :: "datetime \<Rightarrow> datetime \<Rightarrow> nat \<Rightarrow> interval" where
  "spec_interval start_date end_date k =
     \<lparr>iv_start = strftime_ymd
        (if k = 0 then start_date else first_of_month (month_index start_date + k)),
      iv_end = strftime_ymd (dt_min (last_of_month (month_index start_date + k)) end_date),
      iv_label = strftime_BY (first_of_month (month_index start_date + k))\<rparr>"

section \<open>Parsing dates and the effective date\<close>

text \<open>
  \<^verbatim>\<open>datetime.strptime(s, '%Y-%m-%d')\<close>. The library turns the format into the regular
  expression
  \<^verbatim>\<open>(?P<Y>\d\d\d\d)-(?P<m>1[0-2]|0[1-9]|[1-9])-(?P<d>3[0-1]|[1-2]\d|0[1-9]|[1-9]| [1-9])\<close>,
  matches it at the start of the string, raises \<^verbatim>\<open>ValueError\<close> when it does not match or
  when text remains after the match, and builds the date from the three groups, which
  raises \<^verbatim>\<open>ValueError\<close> for a date that the calendar does not have. The alternatives of
  a group are tried in order. Where a two-character alternative of the month matches, no
  later alternative can make the rest of the expression match (the next character is a
  digit, not the hyphen), so the first alternative that matches decides. Digits are the
  ASCII digits.
\<close>

definition is_digit :: "char \<Rightarrow> bool" where
  "is_digit c = (c \<in> set ''0123456789'')"

definition digit_val :: "char \<Rightarrow> nat" where
  "digit_val c =
     (case map_of (zip ''0123456789'' [0, 1, 2, 3, 4, 5, 6, 7, 8, 9]) c of
        None \<Rightarrow> 0
      | Some n \<Rightarrow> n)"

fun match_month :: "string \<Rightarrow> (nat \<times> string) option" where
  "match_month (a # b # r) =
     (if a = CHR ''1'' \<and> b \<in> set ''012'' then Some (10 + digit_val b, r)
      else if a = CHR ''0'' \<and> b \<in> set ''123456789'' then Some (digit_val b, r)
      else if a \<in> set ''123456789'' then Some (digit_val a, b # r)
      else None)"
| "match_month [a] = (if a \<in> set ''123456789'' then Some (digit_val a, []) else None)"
| "match_month [] = None"

fun match_day :: "string \<Rightarrow> (nat \<times> string) option" where
  "match_day (a # b # r) =
     (if a = CHR ''3'' \<and> b \<in> set ''01'' then Some (30 + digit_val b, r)
      else if a \<in> set ''12'' \<and> is_digit b then Some (10 * digit_val a + digit_val b, r)
      else if a = CHR ''0'' \<and> b \<in> set ''123456789'' then Some (digit_val b, r)
      else if a \<in> set ''123456789'' then Some (digit_val a, b # r)
      else if a = CHR '' '' \<and> b \<in> set ''123456789'' then Some (digit_val b, r)
      else None)"
| "match_day [a] = (if a \<in> set ''123456789'' then Some (digit_val a, []) else None)"
| "match_day [] = None"

definition strptime :: "string \<Rightarrow> error + datetime" where
  "strptime s =
     (case s of
        y1 # y2 # y3 # y4 # h1 # r1 \<Rightarrow>
          if is_digit y1 \<and> is_digit y2 \<and> is_digit y3 \<and> is_digit y4 \<and> h1 = CHR ''-'' then
            (case match_month r1 of
               Some (m, h2 # r2) \<Rightarrow>
                 if h2 = CHR ''-'' then
                   (case match_day r2 of
                      Some (d, []) \<Rightarrow>
                        datetime (1000 * digit_val y1 + 100 * digit_val y2
                                  + 10 * digit_val y3 + digit_val y4) m d
                    | _ \<Rightarrow> Inl ValueError)
                 else Inl ValueError
             | _ \<Rightarrow> Inl ValueError)
          else Inl ValueError
      | _ \<Rightarrow> Inl ValueError)"

text \<open>
  \<^verbatim>\<open>get_effective_date(issue)\<close>. The three \<^verbatim>\<open>get\<close> calls that read the status are outside
  the \<^verbatim>\<open>try\<close> block and raise \<^verbatim>\<open>AttributeError\<close> on a value that is no dictionary. The
  bare \<^verbatim>\<open>except\<close> catches whatever the parsing raises: the \<^verbatim>\<open>ValueError\<close> of \<^verbatim>\<open>strptime\<close>,
  and the \<^verbatim>\<open>TypeError\<close> or \<^verbatim>\<open>AttributeError\<close> that a true value which is not a string
  raises at \<^verbatim>\<open>'T' in date_str\<close>, at \<^verbatim>\<open>split\<close> or in \<^verbatim>\<open>strptime\<close>. For a string,
  \<^verbatim>\<open>date_str.split('T')[0]\<close> is the text before the first \<open>T\<close>.
\<close>

definition get_effective_date :: "json \<Rightarrow> error + datetime option" where
  "get_effective_date issue =
     (case dict_get issue ''fields'' (JObj []) of
        Inl e \<Rightarrow> Inl e
      | Inr flds \<Rightarrow>
     (case dict_get flds ''status'' (JObj []) of
        Inl e \<Rightarrow> Inl e
      | Inr status_obj \<Rightarrow>
     (case dict_get status_obj ''name'' (JStr []) of
        Inl e \<Rightarrow> Inl e
      | Inr status \<Rightarrow>
     (case (if status = JStr ''Done'' then dict_get flds ''resolutiondate'' JNull
            else dict_get flds ''updated'' JNull) of
        Inl e \<Rightarrow> Inl e
      | Inr date_str \<Rightarrow>
          if truthy date_str then
            (case date_str of
               JStr s \<Rightarrow>
                 (case strptime (if CHR ''T'' \<in> set s
                                 then takeWhile (\<lambda>c. c \<noteq> CHR ''T'') s else s) of
                    Inl e \<Rightarrow> Inr None
                  | Inr d \<Rightarrow> Inr (Some d))
             | _ \<Rightarrow> Inr None)
          else Inr None))))"

section \<open>The remote fetcher\<close>

text \<open>
  The search endpoint is outside the program. A call of \<^verbatim>\<open>requests.post\<close> is a step of
  the remote world \<open>'w\<close>: from the state of the world and the payload of the request
  (the query and, when the script attaches one, the \<^verbatim>\<open>nextPageToken\<close>) it gives the
  reply and the next state. The URL, the headers, the credentials, the page size and the
  field list are the same in every request of a run and are part of the world. A reply
  is an exception of the transport (connection error, timeout) or a response with its
  status code and its body; the body is \<open>None\<close> when \<^verbatim>\<open>response.json()\<close> raises.
\<close>

datatype reply = TransportError | Response int "json option"

type_synonym 'w server = "'w \<Rightarrow> string \<Rightarrow> json option \<Rightarrow> reply \<times> 'w"

text \<open>
  The elements that \<^verbatim>\<open>all_issues.extend(x)\<close> appends: those of a list, the characters
  of a string, the keys of a dictionary; any other value is not iterable
  (\<^verbatim>\<open>TypeError\<close>).
\<close>

fun py_iter :: "json \<Rightarrow> error + json list" where
  "py_iter (JArr xs) = Inr xs"
| "py_iter (JStr s) = Inr (map (\<lambda>c. JStr [c]) s)"
| "py_iter (JObj kvs) = Inr (map (\<lambda>kv. JStr (fst kv)) kvs)"
| "py_iter _ = Inl TypeError"

text \<open>
  The \<^verbatim>\<open>while True\<close> loop of \<^verbatim>\<open>fetch_issues_by_jql\<close>. The loop need not end (a server
  can return a token for ever), so it is a partial function: \<open>None\<close> is a run that does
  not return. The status check and the bare \<^verbatim>\<open>except\<close> both return \<^verbatim>\<open>all_issues\<close>.
\<close>

partial_function (option) fetch_issues_loop ::
  "'w server \<Rightarrow> string \<Rightarrow> json list \<Rightarrow> json \<Rightarrow> 'w \<Rightarrow> (json list \<times> 'w) option" where
  "fetch_issues_loop post jql all_issues next_page_token w =
     (case post w jql (if truthy next_page_token then Some next_page_token else None) of
        (TransportError, w') \<Rightarrow> Some (all_issues, w')
      | (Response status_code body, w') \<Rightarrow>
          if status_code \<noteq> 200 then Some (all_issues, w')
          else
            (case body of
               None \<Rightarrow> Some (all_issues, w')
             | Some data \<Rightarrow>
            (case dict_get data ''issues'' (JArr []) of
               Inl e \<Rightarrow> Some (all_issues, w')
             | Inr page \<Rightarrow>
            (case py_iter page of
               Inl e \<Rightarrow> Some (all_issues, w')
             | Inr items \<Rightarrow>
            (case dict_get data ''nextPageToken'' JNull of
               Inl e \<Rightarrow> Some (all_issues @ items, w')
             | Inr token \<Rightarrow>
                 if \<not> truthy token then Some (all_issues @ items, w')
                 else fetch_issues_loop post jql (all_issues @ items) token w')))))"

definition fetch_issues_by_jql :: "'w server \<Rightarrow> string \<Rightarrow> 'w \<Rightarrow> (json list \<times> 'w) option" where
  "fetch_issues_by_jql post jql w = fetch_issues_loop post jql [] JNull w"

definition PORTFOLIO_KEY :: string where
  "PORTFOLIO_KEY = ''CPF-74''"

definition fetch_initiatives :: "'w server \<Rightarrow> 'w \<Rightarrow> (json list \<times> 'w) option" where
  "fetch_initiatives post w =
     fetch_issues_by_jql post (''parent = '' @ PORTFOLIO_KEY @ '' AND issuetype = Initiative'') w"

text \<open>
  \<^verbatim>\<open>",".join(batch)\<close>: \<^verbatim>\<open>TypeError\<close> unless every element is a string.
\<close>

fun join_keys :: "json list \<Rightarrow> error + string" where
  "join_keys [] = Inr []"
| "join_keys [JStr s] = Inr s"
| "join_keys (JStr s # k # ks) =
     (case join_keys (k # ks) of Inl e \<Rightarrow> Inl e | Inr r \<Rightarrow> Inr (s @ '','' @ r))"
| "join_keys (_ # ks) = Inl TypeError"

text \<open>
  The loop \<^verbatim>\<open>for i in range(0, len(initiative_keys), batch_size)\<close> of
  \<^verbatim>\<open>fetch_epics_for_initiatives\<close>, on the keys that remain.
\<close>

function epics_loop ::
  "'w server \<Rightarrow> json list \<Rightarrow> json list \<Rightarrow> 'w \<Rightarrow> ((error + json list) \<times> 'w) option" where
  "epics_loop post keys all_epics w =
     (if keys = [] then Some (Inr all_epics, w)
      else
        (case join_keys (take 20 keys) of
           Inl e \<Rightarrow> Some (Inl e, w)
         | Inr joined \<Rightarrow>
             (case fetch_issues_by_jql post
                     (''parent in ('' @ joined @ '') AND issuetype = Epic'') w of
                None \<Rightarrow> None
              | Some (epics, w') \<Rightarrow> epics_loop post (drop 20 keys) (all_epics @ epics) w')))"
  by pat_completeness auto
termination
  by (relation "measure (\<lambda>(post, keys, all_epics, w). length keys)") auto

definition fetch_epics_for_initiatives ::
  "'w server \<Rightarrow> json list \<Rightarrow> 'w \<Rightarrow> ((error + json list) \<times> 'w) option" where
  "fetch_epics_for_initiatives post initiative_keys w =
     (if initiative_keys = [] then Some (Inr [], w)
      else epics_loop post initiative_keys [] w)"

text \<open>
  \<^verbatim>\<open>i['key']\<close> in the comprehension over the initiatives: \<^verbatim>\<open>KeyError\<close> for a dictionary
  without the key, \<^verbatim>\<open>TypeError\<close> for a value that is no dictionary.
\<close>

fun subscript :: "json \<Rightarrow> string \<Rightarrow> error + json" where
  "subscript (JObj kvs) k = (case map_of kvs k of None \<Rightarrow> Inl KeyError | Some v \<Rightarrow> Inr v)"
| "subscript _ k = Inl TypeError"

fun initiative_keys_of :: "json list \<Rightarrow> error + json list" where
  "initiative_keys_of [] = Inr []"
| "initiative_keys_of (i # rest) =
     (case subscript i ''key'' of
        Inl e \<Rightarrow> Inl e
      | Inr k \<Rightarrow> (case initiative_keys_of rest of Inl e \<Rightarrow> Inl e | Inr ks \<Rightarrow> Inr (k # ks)))"

text \<open>The query of the child issues, a constant of \<^verbatim>\<open>fetch_jira_issues\<close>.\<close>

definition child_jql :: string where
  "child_jql =
     ''parent in portfolioChildIssuesOf(\"'' @ PORTFOLIO_KEY @ ''\")\<newline>'' @
     ''AND issuetype NOT IN (\<newline>'' @
     ''  Initiative, Epic, \"Sub Test Execution\", \"Test Execution\",\<newline>'' @
     ''  Test, \"Test Plan\", \"Test Case\", \"Test Automation\", Sub-task\<newline>'' @
     '')\<newline>'' @
     ''AND status NOT IN (Canceled, Cancelled, \"Will Not Do\", \"Resolved as Duplicate\")\<newline>'' @
     ''AND project NOT IN (\<newline>'' @
     ''  \"QA Shared Services\", \"QA Enterprise Systems\",\<newline>'' @
     ''  \"QA Grading & Operations\", \"QA PCGS\", \"QA PSA Platform\")\<newline>'' @
     ''AND parent not in (NS-1095)\<newline>'' @
     ''AND key NOT IN (ESB-30,ESB-68)\<newline>'' @
     ''AND NOT (\<newline>'' @
     ''  (status = DONE\<newline>'' @
     ''   AND resolutiondate <= \"2026-01-06\")\<newline>'' @
     ''  OR\<newline>'' @
     ''  (status IN (\"Ready for Prod Release\",\<newline>'' @
     ''              \"Pending Deployment\",\<newline>'' @
     ''              \"Ready for Deploy/Push\")\<newline>'' @
     ''   AND updated <= \"2026-01-06\")\<newline>'' @
     '')\<newline>'' @
     ''ORDER BY resolutiondate DESC, updatedDate ASC''"

text \<open>
  The \<^verbatim>\<open>while True\<close> loop of \<^verbatim>\<open>fetch_jira_issues\<close> over the child issues. It is the loop
  of \<^verbatim>\<open>fetch_issues_by_jql\<close> but for its two error exits, which return three empty
  lists: the result \<open>None\<close> beside the world stands for that return.
\<close>

partial_function (option) child_issues_loop ::
  "'w server \<Rightarrow> string \<Rightarrow> json list \<Rightarrow> json \<Rightarrow> 'w \<Rightarrow> (json list option \<times> 'w) option" where
  "child_issues_loop post jql all_issues next_page_token w =
     (case post w jql (if truthy next_page_token then Some next_page_token else None) of
        (TransportError, w') \<Rightarrow> Some (None, w')
      | (Response status_code body, w') \<Rightarrow>
          if status_code \<noteq> 200 then Some (None, w')
          else
            (case body of
               None \<Rightarrow> Some (None, w')
             | Some data \<Rightarrow>
            (case dict_get data ''issues'' (JArr []) of
               Inl e \<Rightarrow> Some (None, w')
             | Inr page \<Rightarrow>
            (case py_iter page of
               Inl e \<Rightarrow> Some (None, w')
             | Inr items \<Rightarrow>
            (case dict_get data ''nextPageToken'' JNull of
               Inl e \<Rightarrow> Some (None, w')
             | Inr token \<Rightarrow>
                 if \<not> truthy token then Some (Some (all_issues @ items), w')
                 else child_issues_loop post jql (all_issues @ items) token w')))))"

text \<open>
  \<^verbatim>\<open>fetch_jira_issues()\<close>, with the two credentials of the environment as parameters.
  The result is the triple of child issues, initiatives and epics, or the exception
  that the key list or the query of the epics raised.
\<close>

definition fetch_jira_issues ::
  "string \<Rightarrow> string \<Rightarrow> 'w server \<Rightarrow> 'w \<Rightarrow>
     ((error + json list \<times> json list \<times> json list) \<times> 'w) option" where
  "fetch_jira_issues JIRA_EMAIL JIRA_API_TOKEN post w =
     (if JIRA_EMAIL = [] \<or> JIRA_API_TOKEN = [] then Some (Inr ([], [], []), w)
      else
        (case fetch_initiatives post w of
           None \<Rightarrow> None
         | Some (initiatives, w1) \<Rightarrow>
        (case initiative_keys_of initiatives of
           Inl e \<Rightarrow> Some (Inl e, w1)
         | Inr initiative_keys \<Rightarrow>
        (case fetch_epics_for_initiatives post initiative_keys w1 of
           None \<Rightarrow> None
         | Some (Inl e, w2) \<Rightarrow> Some (Inl e, w2)
         | Some (Inr epics, w2) \<Rightarrow>
        (case child_issues_loop post child_jql [] JNull w2 of
           None \<Rightarrow> None
         | Some (None, w3) \<Rightarrow> Some (Inr ([], [], []), w3)
         | Some (Some all_issues, w3) \<Rightarrow> Some (Inr (all_issues, initiatives, epics), w3))))))"

text \<open>
  The runs of the server that the claims on pagination speak of. \<open>good_pages\<close> follows a
  list of pages, each the records of a page and the continuation token returned with
  them: asked with the pending token, the server answers with status 200 and a body
  whose \<open>issues\<close> are the records and whose \<open>nextPageToken\<close> is the (true) token of the
  page; the next page is asked with that token. The result is the world and the pending
  token after the pages. \<open>failed\<close> is a reply that is a transport error or has a status
  code other than 200.
\<close>

fun good_pages ::
  "'w server \<Rightarrow> string \<Rightarrow> 'w \<Rightarrow> json \<Rightarrow> (json list \<times> json) list \<Rightarrow> ('w \<times> json) option" where
  "good_pages post jql w token [] = Some (w, token)"
| "good_pages post jql w token ((items, token') # rest) =
     (case post w jql (if truthy token then Some token else None) of
        (Response status_code (Some data), w') \<Rightarrow>
          if status_code = 200 \<and> dict_get data ''issues'' (JArr []) = Inr (JArr items)
             \<and> dict_get data ''nextPageToken'' JNull = Inr token' \<and> truthy token'
          then good_pages post jql w' token' rest
          else None
      | _ \<Rightarrow> None)"

definition failed :: "reply \<Rightarrow> bool" where
  "failed r = (case r of TransportError \<Rightarrow> True | Response status_code body \<Rightarrow> status_code \<noteq> 200)"

text \<open>
  A server for examples: its world is the number of requests made so far, and request
  number \<open>n\<close> is answered with entry \<open>n\<close> of a script of replies (with a transport error
  after the end of the script).
\<close>

definition scripted_server :: "reply list \<Rightarrow> nat server" where
  "scripted_server script n jql token =
     (if n < length script then script ! n else TransportError, n + 1)"

section \<open>The processor\<close>

text \<open>
  The dictionaries that \<^verbatim>\<open>process_initiative\<close>, \<^verbatim>\<open>process_epic\<close> and the loop of
  \<^verbatim>\<open>process_issues\<close> build, one record field for each key. A value copied from the
  issue is a \<open>json\<close> value (\<^verbatim>\<open>None\<close> is \<open>JNull\<close>); \<^verbatim>\<open>effectiveDate\<close> and \<^verbatim>\<open>weekLabel\<close> are
  a string or \<^verbatim>\<open>None\<close>.
\<close>

record initiative_row =
  ini_key :: json
  ini_summary :: json
  ini_status :: json

record epic_row =
  epic_key :: json
  epic_summary :: json
  epic_status :: json
  epic_parent :: json

record issue_row =
  row_key :: json
  row_summary :: json
  row_status :: json
  row_statusGroup :: string
  row_project :: json
  row_projectName :: json
  row_issueType :: json
  row_assignee :: json
  row_isCompleted :: bool
  row_effectiveDate :: "string option"
  row_weekLabel :: "string option"
  row_parent :: json

text \<open>
  \<^verbatim>\<open>issue.get('fields', {})\<close> followed by \<^verbatim>\<open>.get('status', {}).get('name', '')\<close>, the
  expression by which \<^verbatim>\<open>process_initiative\<close>, \<^verbatim>\<open>process_epic\<close>, \<^verbatim>\<open>get_effective_date\<close> and
  \<^verbatim>\<open>process_issues\<close> read the status name.
\<close>

definition status_name_of :: "json \<Rightarrow> error + json" where
  "status_name_of flds =
     (case dict_get flds ''status'' (JObj []) of
        Inl e \<Rightarrow> Inl e
      | Inr status_obj \<Rightarrow> dict_get status_obj ''name'' (JStr []))"

text \<open>
  \<^verbatim>\<open>parent_key = None\<close>, then \<^verbatim>\<open>if fields.get('parent'): parent_key = fields['parent'].get('key')\<close>.
\<close>

definition parent_key_of :: "json \<Rightarrow> error + json" where
  "parent_key_of flds =
     (case dict_get flds ''parent'' JNull of
        Inl e \<Rightarrow> Inl e
      | Inr parent \<Rightarrow> if truthy parent then dict_get parent ''key'' JNull else Inr JNull)"

definition process_initiative :: "json \<Rightarrow> error + initiative_row" where
  "process_initiative issue =
     (case dict_get issue ''fields'' (JObj []) of
        Inl e \<Rightarrow> Inl e
      | Inr flds \<Rightarrow>
     (case dict_get issue ''key'' JNull of
        Inl e \<Rightarrow> Inl e
      | Inr k \<Rightarrow>
     (case dict_get flds ''summary'' (JStr []) of
        Inl e \<Rightarrow> Inl e
      | Inr summary \<Rightarrow>
     (case status_name_of flds of
        Inl e \<Rightarrow> Inl e
      | Inr status \<Rightarrow>
          Inr \<lparr>ini_key = k, ini_summary = summary, ini_status = status\<rparr>))))"

definition process_epic :: "json \<Rightarrow> error + epic_row" where
  "process_epic issue =
     (case dict_get issue ''fields'' (JObj []) of
        Inl e \<Rightarrow> Inl e
      | Inr flds \<Rightarrow>
     (case parent_key_of flds of
        Inl e \<Rightarrow> Inl e
      | Inr parent_key \<Rightarrow>
     (case dict_get issue ''key'' JNull of
        Inl e \<Rightarrow> Inl e
      | Inr k \<Rightarrow>
     (case dict_get flds ''summary'' (JStr []) of
        Inl e \<Rightarrow> Inl e
      | Inr summary \<Rightarrow>
     (case status_name_of flds of
        Inl e \<Rightarrow> Inl e
      | Inr status \<Rightarrow>
          Inr \<lparr>epic_key = k, epic_summary = summary, epic_status = status,
               epic_parent = parent_key\<rparr>)))))"

text \<open>The two loops that append \<^verbatim>\<open>process_initiative(init)\<close> and \<^verbatim>\<open>process_epic(epic)\<close>.\<close>

fun process_initiatives :: "json list \<Rightarrow> error + initiative_row list" where
  "process_initiatives [] = Inr []"
| "process_initiatives (init # rest) =
     (case process_initiative init of
        Inl e \<Rightarrow> Inl e
      | Inr row \<Rightarrow>
          (case process_initiatives rest of Inl e \<Rightarrow> Inl e | Inr rows \<Rightarrow> Inr (row # rows)))"

fun process_epics :: "json list \<Rightarrow> error + epic_row list" where
  "process_epics [] = Inr []"
| "process_epics (epic # rest) =
     (case process_epic epic of
        Inl e \<Rightarrow> Inl e
      | Inr row \<Rightarrow>
          (case process_epics rest of Inl e \<Rightarrow> Inl e | Inr rows \<Rightarrow> Inr (row # rows)))"

text \<open>
  Keys of a dictionary and elements of a set: lists and dictionaries are unhashable
  (\<^verbatim>\<open>TypeError\<close>), and Python's equality identifies \<^verbatim>\<open>True\<close> with 1 and \<^verbatim>\<open>False\<close> with 0.
  \<open>dict_set\<close> is \<^verbatim>\<open>d[k] = v\<close> on the items of the dictionary, \<open>set_add\<close> is \<^verbatim>\<open>s.add(x)\<close>
  on the elements of the set.
\<close>

fun hashable :: "json \<Rightarrow> bool" where
  "hashable (JArr xs) = False"
| "hashable (JObj kvs) = False"
| "hashable v = True"

fun py_key :: "json \<Rightarrow> json" where
  "py_key (JBool b) = JNum (if b then 1 else 0)"
| "py_key v = v"

fun dict_set :: "(json \<times> json) list \<Rightarrow> json \<Rightarrow> json \<Rightarrow> (json \<times> json) list" where
  "dict_set [] k v = [(k, v)]"
| "dict_set ((k', v') # rest) k v =
     (if py_key k' = py_key k then (k', v) # rest else (k', v') # dict_set rest k v)"

definition set_add :: "json list \<Rightarrow> json \<Rightarrow> json list" where
  "set_add xs x = (if list_ex (\<lambda>y. py_key y = py_key x) xs then xs else xs @ [x])"

text \<open>
  The block of \<^verbatim>\<open>process_issues\<close> that sets \<^verbatim>\<open>week_label\<close>. The \<^verbatim>\<open>for\<close> loop parses the
  bounds of each interval it visits (\<^verbatim>\<open>strptime\<close> can raise) and breaks at the first
  interval that holds the date. After the loop, \<^verbatim>\<open>not week_label\<close> is true for \<^verbatim>\<open>None\<close>
  and for the empty string.
\<close>

fun week_label_loop :: "interval list \<Rightarrow> datetime \<Rightarrow> error + string option" where
  "week_label_loop [] effective_date = Inr None"
| "week_label_loop (interval # rest) effective_date =
     (case strptime (iv_start interval) of
        Inl e \<Rightarrow> Inl e
      | Inr start \<Rightarrow>
     (case strptime (iv_end interval) of
        Inl e \<Rightarrow> Inl e
      | Inr end_date \<Rightarrow>
          if dt_le start effective_date \<and> dt_le effective_date end_date
          then Inr (Some (iv_label interval))
          else week_label_loop rest effective_date))"

definition week_label_of ::
  "interval list \<Rightarrow> json \<Rightarrow> datetime option \<Rightarrow> error + string option" where
  "week_label_of intervals status_name effective_date =
     (if is_completed status_name then
        (case effective_date of
           None \<Rightarrow> Inr None
         | Some d \<Rightarrow>
             (case week_label_loop intervals d of
                Inl e \<Rightarrow> Inl e
              | Inr week_label \<Rightarrow>
                  if (week_label = None \<or> week_label = Some []) \<and> dt_less d START_DATE
                  then Inr (case intervals of [] \<Rightarrow> None | first # rest \<Rightarrow> Some (iv_label first))
                  else Inr week_label))
      else Inr None)"

text \<open>
  The state of the loop \<^verbatim>\<open>for issue in issues\<close>: the list \<^verbatim>\<open>processed\<close>, the dictionary
  \<^verbatim>\<open>projects\<close> and the sets \<^verbatim>\<open>issue_types\<close> and \<^verbatim>\<open>status_groups\<close>.
\<close>

record proc_state =
  processed :: "issue_row list"
  projects :: "(json \<times> json) list"
  issue_types :: "json list"
  status_groups :: "string list"

text \<open>The body of the loop, statement by statement; each \<^verbatim>\<open>get\<close> on a value can raise.\<close>

definition process_issue :: "interval list \<Rightarrow> proc_state \<Rightarrow> json \<Rightarrow> error + proc_state" where
  "process_issue intervals st issue =
     (case dict_get issue ''fields'' (JObj []) of
        Inl e \<Rightarrow> Inl e
      | Inr flds \<Rightarrow>
     (case dict_get flds ''project'' (JObj []) of
        Inl e \<Rightarrow> Inl e
      | Inr project \<Rightarrow>
     (case dict_get project ''key'' (JStr ''Unknown'') of
        Inl e \<Rightarrow> Inl e
      | Inr project_key \<Rightarrow>
     (case dict_get project ''name'' project_key of
        Inl e \<Rightarrow> Inl e
      | Inr project_name \<Rightarrow>
     (case status_name_of flds of
        Inl e \<Rightarrow> Inl e
      | Inr status_name \<Rightarrow>
     (case dict_get flds ''issuetype'' (JObj []) of
        Inl e \<Rightarrow> Inl e
      | Inr issuetype \<Rightarrow>
     (case dict_get issuetype ''name'' (JStr ''Unknown'') of
        Inl e \<Rightarrow> Inl e
      | Inr issue_type \<Rightarrow>
          if \<not> hashable project_key then Inl TypeError
          else if \<not> hashable issue_type then Inl TypeError
          else
     (case get_status_group status_name of
        Inl e \<Rightarrow> Inl e
      | Inr status_group \<Rightarrow>
     (case get_effective_date issue of
        Inl e \<Rightarrow> Inl e
      | Inr effective_date \<Rightarrow>
     (case week_label_of intervals status_name effective_date of
        Inl e \<Rightarrow> Inl e
      | Inr week_label \<Rightarrow>
     (case parent_key_of flds of
        Inl e \<Rightarrow> Inl e
      | Inr parent_key \<Rightarrow>
     (case dict_get issue ''key'' JNull of
        Inl e \<Rightarrow> Inl e
      | Inr k \<Rightarrow>
     (case dict_get flds ''summary'' (JStr []) of
        Inl e \<Rightarrow> Inl e
      | Inr summary \<Rightarrow>
     (case dict_get flds ''assignee'' JNull of
        Inl e \<Rightarrow> Inl e
      | Inr assignee \<Rightarrow>
     (case (if truthy assignee then dict_get assignee ''displayName'' (JStr ''Unassigned'')
            else Inr (JStr ''Unassigned'')) of
        Inl e \<Rightarrow> Inl e
      | Inr assignee_name \<Rightarrow>
          Inr \<lparr>processed = processed st @
                 [\<lparr>row_key = k, row_summary = summary, row_status = status_name,
                   row_statusGroup = status_group, row_project = project_key,
                   row_projectName = project_name, row_issueType = issue_type,
                   row_assignee = assignee_name,
                   row_isCompleted = is_completed status_name,
                   row_effectiveDate = map_option strftime_ymd effective_date,
                   row_weekLabel = week_label, row_parent = parent_key\<rparr>],
               projects = dict_set (projects st) project_key project_name,
               issue_types = set_add (issue_types st) issue_type,
               status_groups = List.insert status_group (status_groups st)\<rparr>)))))))))))))))"

fun process_issues_loop :: "interval list \<Rightarrow> proc_state \<Rightarrow> json list \<Rightarrow> error + proc_state" where
  "process_issues_loop intervals st [] = Inr st"
| "process_issues_loop intervals st (issue # rest) =
     (case process_issue intervals st issue of
        Inl e \<Rightarrow> Inl e
      | Inr st' \<Rightarrow> process_issues_loop intervals st' rest)"

text \<open>
  \<^verbatim>\<open>sorted(list(issue_types))\<close>. The elements of a set are pairwise different, so the
  sorted list does not depend on the order of the set. Sorting compares the elements:
  strings with strings, numbers and booleans with each other; any other pair raises
  \<^verbatim>\<open>TypeError\<close>, and a list of at most one element is compared with nothing.
\<close>

fun is_str :: "json \<Rightarrow> bool" where
  "is_str (JStr s) = True"
| "is_str v = False"

fun str_of :: "json \<Rightarrow> string" where
  "str_of (JStr s) = s"
| "str_of v = []"

fun is_num :: "json \<Rightarrow> bool" where
  "is_num (JNum n) = True"
| "is_num (JBool b) = True"
| "is_num v = False"

fun num_of :: "json \<Rightarrow> int" where
  "num_of (JNum n) = n"
| "num_of (JBool b) = (if b then 1 else 0)"
| "num_of v = 0"

definition py_sorted :: "json list \<Rightarrow> error + json list" where
  "py_sorted xs =
     (if length xs \<le> 1 then Inr xs
      else if list_all is_str xs then Inr (map JStr (sort (map str_of xs)))
      else if list_all is_num xs then Inr (sort_key num_of xs)
      else Inl TypeError)"

text \<open>
  The dictionary that \<^verbatim>\<open>process_issues\<close> returns. \<open>lastUpdated\<close> is the text that
  \<^verbatim>\<open>datetime.utcnow().strftime('%Y-%m-%dT%H:%M:%SZ')\<close> gives when the function returns; the
  clock is outside the program, and the text is a parameter.
\<close>

record dataset =
  ds_issues :: "issue_row list"
  ds_initiatives :: "initiative_row list"
  ds_epics :: "epic_row list"
  ds_projects :: "(json \<times> json) list"
  ds_issueTypes :: "json list"
  ds_statusGroups :: "string list"
  ds_intervals :: "interval list"
  ds_startDate :: string
  ds_endDate :: string
  ds_lastUpdated :: string

definition process_issues ::
  "string \<Rightarrow> json list \<Rightarrow> interval list \<Rightarrow> json list \<Rightarrow> json list \<Rightarrow> error + dataset" where
  "process_issues utcnow issues intervals initiatives epics =
     (case process_initiatives initiatives of
        Inl e \<Rightarrow> Inl e
      | Inr processed_initiatives \<Rightarrow>
     (case process_epics epics of
        Inl e \<Rightarrow> Inl e
      | Inr processed_epics \<Rightarrow>
     (case process_issues_loop intervals
             \<lparr>processed = [], projects = [], issue_types = [], status_groups = []\<rparr> issues of
        Inl e \<Rightarrow> Inl e
      | Inr st \<Rightarrow>
     (case py_sorted (issue_types st) of
        Inl e \<Rightarrow> Inl e
      | Inr sorted_types \<Rightarrow>
          Inr \<lparr>ds_issues = processed st,
               ds_initiatives = processed_initiatives,
               ds_epics = processed_epics,
               ds_projects = projects st,
               ds_issueTypes = sorted_types,
               ds_statusGroups = sort (status_groups st),
               ds_intervals = intervals,
               ds_startDate = strftime_ymd START_DATE,
               ds_endDate = strftime_ymd END_DATE,
               ds_lastUpdated = utcnow\<rparr>))))"

section \<open>The renderer and the run\<close>

text \<open>
  \<^verbatim>\<open>template.replace('__DASHBOARD_DATA__', data_json)\<close>: every occurrence of the
  placeholder, from left to right, is replaced. The function is \<^verbatim>\<open>str.replace\<close> for a
  pattern that is not empty, as the placeholder is.
\<close>

function str_replace :: "string \<Rightarrow> string \<Rightarrow> string \<Rightarrow> string" where
  "str_replace s old new =
     (if s = [] \<or> old = [] then s
      else if take (length old) s = old then new @ str_replace (drop (length old) s) old new
      else hd s # str_replace (tl s) old new)"
  by pat_completeness auto
termination
  by (relation "measure (\<lambda>(s, old, new). length s)") auto

text \<open>
  \<^verbatim>\<open>generate_html(data)\<close>. The template is read first: \<^verbatim>\<open>open\<close> raises
  \<^verbatim>\<open>FileNotFoundError\<close> when the file is missing. \<^verbatim>\<open>json.dumps\<close> is a function of the
  library and a parameter here.
\<close>

definition generate_html ::
  "(dataset \<Rightarrow> string) \<Rightarrow> string option \<Rightarrow> dataset \<Rightarrow> error + string" where
  "generate_html dumps template_file data =
     (case template_file of
        None \<Rightarrow> Inl FileNotFoundError
      | Some template \<Rightarrow> Inr (str_replace template ''__DASHBOARD_DATA__'' (dumps data)))"

text \<open>
  What a run can see and change outside the program: the remote service, the template
  file beside the script (\<open>None\<close> when it is missing), the output file
  \<^verbatim>\<open>docs/index.html\<close> (\<open>None\<close> when it does not exist) and the clock. Creating the
  directory and writing the file are taken to succeed; the messages that the script
  prints are left out.
\<close>

record 'w world =
  remote :: 'w
  template_file :: "string option"
  output_file :: "string option"
  utcnow :: string

text \<open>
  \<^verbatim>\<open>main()\<close>, with the credentials of the environment as parameters. The result is the
  boolean that \<^verbatim>\<open>main\<close> returns, or the exception that leaves it.
\<close>

definition main ::
  "string \<Rightarrow> string \<Rightarrow> (dataset \<Rightarrow> string) \<Rightarrow> 'w server \<Rightarrow> 'w world \<Rightarrow>
     ((error + bool) \<times> 'w world) option" where
  "main JIRA_EMAIL JIRA_API_TOKEN dumps post world =
     (case fetch_jira_issues JIRA_EMAIL JIRA_API_TOKEN post (remote world) of
        None \<Rightarrow> None
      | Some (Inl e, r) \<Rightarrow> Some (Inl e, world\<lparr>remote := r\<rparr>)
      | Some (Inr (issues, initiatives, epics), r) \<Rightarrow>
          if issues = [] then Some (Inr False, world\<lparr>remote := r\<rparr>)
          else
            (case generate_intervals of
               Inl e \<Rightarrow> Some (Inl e, world\<lparr>remote := r\<rparr>)
             | Inr intervals \<Rightarrow>
            (case process_issues (utcnow world) issues intervals initiatives epics of
               Inl e \<Rightarrow> Some (Inl e, world\<lparr>remote := r\<rparr>)
             | Inr data \<Rightarrow>
            (case generate_html dumps (template_file world) data of
               Inl e \<Rightarrow> Some (Inl e, world\<lparr>remote := r\<rparr>)
             | Inr html \<Rightarrow>
                 Some (Inr True, world\<lparr>remote := r, output_file := Some html\<rparr>)))))"

text \<open>
  The exit status of the script: \<^verbatim>\<open>exit(0 if success else 1)\<close>, and 1 when an exception
  leaves \<^verbatim>\<open>main\<close>.
\<close>

definition exit_status :: "error + bool \<Rightarrow> nat" where
  "exit_status r = (case r of Inr True \<Rightarrow> 0 | _ \<Rightarrow> 1)"

section \<open>The label rule of the specification, and a stand-in for examples\<close>

text \<open>
  The assignment of an interval label as the specification words it, to be compared with
  the block of the code. An interval holds a date when both of its bounds parse and the
  date lies between them, both ends included. A completed issue with an effective date
  gets the label of the first interval that holds the date; when no interval holds it
  and the date is before the configured start date, it gets the label of the first
  interval of the sequence; in every other case it gets no label.
\<close>

definition interval_contains :: "interval \<Rightarrow> datetime \<Rightarrow> bool" where
  "interval_contains iv d =
     (case strptime (iv_start iv) of
        Inl e \<Rightarrow> False
      | Inr start \<Rightarrow>
          (case strptime (iv_end iv) of
             Inl e \<Rightarrow> False
           | Inr end_date \<Rightarrow> dt_le start d \<and> dt_le d end_date))"

definition spec_week_label :: "interval list \<Rightarrow> bool \<Rightarrow> datetime option \<Rightarrow> string option" where
  "spec_week_label intervals completed effective_date =
     (case effective_date of
        None \<Rightarrow> None
      | Some d \<Rightarrow>
          if completed then
            (case find (\<lambda>iv. interval_contains iv d) intervals of
               Some iv \<Rightarrow> Some (iv_label iv)
             | None \<Rightarrow>
                 if dt_less d START_DATE
                 then (case intervals of [] \<Rightarrow> None | iv # rest \<Rightarrow> Some (iv_label iv))
                 else None)
          else None)"

text \<open>
  A row of the output agrees with the specification for its issue: the status name and
  the effective date of the issue can be read, the completion flag is that of the status
  name, the effective date is printed as year-month-day, and the interval label is the
  one above.
\<close>

definition row_matches_spec :: "interval list \<Rightarrow> json \<Rightarrow> issue_row \<Rightarrow> bool" where
  "row_matches_spec intervals issue row =
     (case dict_get issue ''fields'' (JObj []) of
        Inl e \<Rightarrow> False
      | Inr flds \<Rightarrow>
     (case status_name_of flds of
        Inl e \<Rightarrow> False
      | Inr status \<Rightarrow>
     (case get_effective_date issue of
        Inl e \<Rightarrow> False
      | Inr effective_date \<Rightarrow>
          row_status row = status
          \<and> row_isCompleted row = is_completed status
          \<and> row_effectiveDate row = map_option strftime_ymd effective_date
          \<and> row_weekLabel row = spec_week_label intervals (is_completed status) effective_date)))"

text \<open>A stand-in for \<^verbatim>\<open>json.dumps\<close> in examples: every dataset is printed as \<^verbatim>\<open>{}\<close>.\<close>

definition example_dumps :: "dataset \<Rightarrow> string" where
  "example_dumps data = ''{}''"

section \<open>Properties of the status classification\<close>

lemma status_group_loop_find:
  "status_group_loop tbl x =
     (case find (\<lambda>(g, sts). x \<in> set (map lower sts)) tbl of
        None \<Rightarrow> ''Other''
      | Some (g, sts) \<Rightarrow> g)"
  by (induction tbl x rule: status_group_loop.induct) (auto simp: list_ex_iff)

lemma empty_name_in_no_group:
  "find (\<lambda>(g, sts). lower [] \<in> set (map lower sts)) STATUS_GROUPS = None"
  by code_simp

lemma completion_statuses_in_done_group:
  "list_all (\<lambda>s. get_status_group (JStr s) = Inr ''Done'') COMPLETION_STATUSES"
  by code_simp

lemma in_progress_group:
  "get_status_group (JStr ''in progress'') = Inr ''Dev In Prog''"
  "get_status_group (JStr ''IN PROGRESS'') = Inr ''Dev In Prog''"
  by code_simp+

text \<open>
  Claim C1, as the code has it. For every status name \<open>S\<close> the lookup depends on the
  lowered name only, and it returns the group of the first entry of the group table
  (in table order) that holds a status whose lowered form equals the whole lowered
  name, and \<open>Other\<close> when no entry does. The names \<open>in progress\<close> and \<open>IN PROGRESS\<close>
  both fall in the group that the table calls \<open>Dev In Prog\<close>.
\<close>

theorem get_status_group_case_insensitive_first_match:
  "(lower S = lower T \<longrightarrow> get_status_group (JStr S) = get_status_group (JStr T))
   \<and> get_status_group (JStr S) =
       Inr (case find (\<lambda>(g, sts). lower S \<in> set (map lower sts)) STATUS_GROUPS of
              None \<Rightarrow> ''Other''
            | Some (g, sts) \<Rightarrow> g)
   \<and> get_status_group (JStr ''in progress'') = Inr ''Dev In Prog''
   \<and> get_status_group (JStr ''IN PROGRESS'') = Inr ''Dev In Prog''"
proof -
  have nil: "lower S = lower T \<Longrightarrow> (S = []) = (T = [])"
    by (auto simp: lower_def)
  have a: "lower S = lower T \<longrightarrow> get_status_group (JStr S) = get_status_group (JStr T)"
    using nil by (auto simp: get_status_group_def)
  have b: "get_status_group (JStr S) =
       Inr (case find (\<lambda>(g, sts). lower S \<in> set (map lower sts)) STATUS_GROUPS of
              None \<Rightarrow> ''Other''
            | Some (g, sts) \<Rightarrow> g)"
  proof (cases "S = []")
    case True
    then show ?thesis
      using empty_name_in_no_group by (simp add: get_status_group_def)
  next
    case False
    then show ?thesis
      by (simp add: get_status_group_def status_group_loop_find)
  qed
  from a b in_progress_group show ?thesis by blast
qed

theorem get_status_group_case_insensitive_first_match_witness:
  "lower ''In Progress'' = lower ''IN PROGRESS''
   \<and> get_status_group (JStr ''In Progress'') = get_status_group (JStr ''IN PROGRESS'')"
proof -
  have h: "lower ''In Progress'' = lower ''IN PROGRESS''"
    by code_simp
  from get_status_group_case_insensitive_first_match [of "''In Progress''" "''IN PROGRESS''"] h
  show ?thesis by blast
qed

text \<open>
  Claim C1 as the specification words it names the group \<open>Dev In Progress\<close>; the table
  of the code has no group of that name.
\<close>

theorem get_status_group_in_progress_counterexample:
  "\<not> (get_status_group (JStr ''in progress'') = Inr ''Dev In Progress''
      \<and> get_status_group (JStr ''IN PROGRESS'') = Inr ''Dev In Progress'')"
  by code_simp

text \<open>
  Claim C2. For every status name \<open>S\<close>, \<open>is_completed\<close> holds exactly when \<open>S\<close> is,
  character for character, one of the nine completion literals; the lowercase
  \<open>done\<close> is not completed.
\<close>

theorem is_completed_exact_match:
  "(is_completed (JStr S) \<longleftrightarrow>
      S = ''Done'' \<or> S = ''DONE'' \<or> S = ''Ready for Prod Release''
      \<or> S = ''Pending Deployment'' \<or> S = ''Ready for Deploy/Push'' \<or> S = ''PM Review''
      \<or> S = ''Ready for Review'' \<or> S = ''Ready for UAT'' \<or> S = ''Ready for Prod'')
   \<and> \<not> is_completed (JStr ''done'')"
proof -
  have "\<not> is_completed (JStr ''done'')"
    by code_simp
  then show ?thesis
    by (simp add: is_completed_def COMPLETION_STATUSES_def)
qed

text \<open>
  Claim C3 as the specification words it: the completion list shares no entry with the
  entries of the \<open>Done\<close> group, and \<open>DONE\<close> is not completed while \<open>Done\<close> is. The code
  contradicts both parts.
\<close>

theorem completion_list_disjoint_counterexample:
  "\<not> (set COMPLETION_STATUSES \<inter> set (the (map_of STATUS_GROUPS ''Done'')) = {}
      \<and> \<not> is_completed (JStr ''DONE'') \<and> is_completed (JStr ''Done''))"
proof -
  have "is_completed (JStr ''DONE'')"
    by code_simp
  then show ?thesis by blast
qed

text \<open>
  Claim C3, as the code has it. The \<open>Done\<close> entry of the group table is the completion
  list itself, and both \<open>DONE\<close> and \<open>Done\<close> are completed.
\<close>

theorem completion_list_is_done_group:
  "map_of STATUS_GROUPS ''Done'' = Some COMPLETION_STATUSES
   \<and> is_completed (JStr ''DONE'') \<and> is_completed (JStr ''Done'')"
  by code_simp

text \<open>
  Claim C10. The \<open>Done\<close> entry of the group table is the completion list, and every
  value that \<open>is_completed\<close> accepts is put in the group \<open>Done\<close> by the lookup, so a
  completed status has no other group.
\<close>

theorem completed_implies_done_group:
  "map_of STATUS_GROUPS ''Done'' = Some COMPLETION_STATUSES
   \<and> (is_completed v \<longrightarrow> get_status_group v = Inr ''Done'')"
proof -
  have tbl: "map_of STATUS_GROUPS ''Done'' = Some COMPLETION_STATUSES"
    by code_simp
  have "get_status_group v = Inr ''Done''" if c: "is_completed v"
  proof (cases v)
    case (JStr s)
    with c have "s \<in> set COMPLETION_STATUSES"
      by (simp add: is_completed_def)
    with completion_statuses_in_done_group show ?thesis
      unfolding JStr list_all_iff by blast
  qed (use c in \<open>simp_all add: is_completed_def\<close>)
  with tbl show ?thesis by blast
qed

theorem completed_implies_done_group_witness:
  "is_completed (JStr ''PM Review'') \<and> get_status_group (JStr ''PM Review'') = Inr ''Done''"
proof -
  have h: "is_completed (JStr ''PM Review'')"
    by code_simp
  from completed_implies_done_group [of "JStr ''PM Review''"] h
  show ?thesis by blast
qed

section \<open>Properties of the interval generator\<close>

lemma valid_datetime_iff:
  "valid_datetime dt \<longleftrightarrow>
     1 \<le> year dt \<and> year dt \<le> 9999 \<and> 1 \<le> month dt \<and> month dt \<le> 12
     \<and> 1 \<le> day dt \<and> day dt \<le> days_in_month (year dt) (month dt)"
  by (cases dt) (auto simp: valid_datetime_def datetime_def)

lemma month_cases:
  "1 \<le> m \<Longrightarrow> m \<le> 12 \<Longrightarrow>
     m = 1 \<or> m = 2 \<or> m = 3 \<or> m = 4 \<or> m = 5 \<or> m = 6 \<or> m = 7 \<or> m = 8 \<or> m = 9
     \<or> m = 10 \<or> m = 11 \<or> m = (12::nat)"
  by arith

lemma days_in_month_ge:
  assumes "1 \<le> m" "m \<le> 12" shows "28 \<le> days_in_month y m"
  using month_cases [OF assms]
  by (elim disjE) (simp_all add: days_in_month_def mdays_def)

lemma monthrange_valid:
  assumes "1 \<le> m" "m \<le> 12" shows "monthrange y m = Inr (days_in_month y m)"
  using month_cases [OF assms]
  by (elim disjE) (simp_all add: monthrange_def days_in_month_def mdays_def)

lemma datetime_first:
  "1 \<le> y \<Longrightarrow> y \<le> 9999 \<Longrightarrow> 1 \<le> m \<Longrightarrow> m \<le> 12 \<Longrightarrow> datetime y m (Suc 0) = Inr (Datetime y m (Suc 0))"
  using days_in_month_ge [of m y] by (simp add: datetime_def)

lemma datetime_last:
  "1 \<le> y \<Longrightarrow> y \<le> 9999 \<Longrightarrow> 1 \<le> m \<Longrightarrow> m \<le> 12 \<Longrightarrow>
     datetime y m (days_in_month y m) = Inr (Datetime y m (days_in_month y m))"
  using days_in_month_ge [of m y] by (simp add: datetime_def)


lemma divmod12: "r < 12 \<Longrightarrow> (y * 12 + r) div 12 = y \<and> (y * 12 + r) mod 12 = (r::nat)"
  by simp

lemma month_index_divmod:
  assumes "1 \<le> month c" "month c \<le> 12"
  shows "month_index c div 12 = year c \<and> month_index c mod 12 + 1 = month c"
proof -
  from assms have "month c - 1 < 12" by simp
  from divmod12 [OF this, of "year c"] assms show ?thesis
    by (simp add: month_index_def)
qed

lemma month_index_Suc_divmod:
  assumes "1 \<le> month c" "month c \<le> 12"
  shows "(Suc (month_index c)) div 12 = (if month c = 12 then year c + 1 else year c)
       \<and> (Suc (month_index c)) mod 12 + 1 = (if month c = 12 then 1 else month c + 1)"
proof (cases "month c = 12")
  case True
  have "(year c * 12 + 11 + 1) div 12 = year c + 1 \<and> (year c * 12 + 11 + 1) mod 12 = 0"
    by presburger
  with True show ?thesis by (simp add: month_index_def)
next
  case False
  with assms have "month c < 12" by simp
  from divmod12 [OF this, of "year c"] assms False show ?thesis
    by (simp add: month_index_def)
qed

lemma first_of_month_index:
  "1 \<le> month c \<Longrightarrow> month c \<le> 12 \<Longrightarrow>
     first_of_month (month_index c) = Datetime (year c) (month c) 1"
  using month_index_divmod [of c] by (simp add: first_of_month_def)

lemma last_of_month_index:
  "1 \<le> month c \<Longrightarrow> month c \<le> 12 \<Longrightarrow>
     last_of_month (month_index c) =
       Datetime (year c) (month c) (days_in_month (year c) (month c))"
  using month_index_divmod [of c] by (simp add: last_of_month_def)

lemma next_month_index:
  "1 \<le> month c \<Longrightarrow> month c \<le> 12 \<Longrightarrow>
     first_of_month (Suc (month_index c)) =
       (if month c = 12 then Datetime (year c + 1) 1 1 else Datetime (year c) (month c + 1) 1)"
  using month_index_Suc_divmod [of c] by (simp add: first_of_month_def)

lemma month_index_first: "month_index (first_of_month i) = i"
  by (simp add: first_of_month_def month_index_def)

lemma dt_le_first_of_month:
  assumes "valid_datetime e"
  shows "dt_le (first_of_month i) e \<longleftrightarrow> i \<le> month_index e"
proof -
  from assms have m: "1 \<le> month e" "month e \<le> 12" and d: "1 \<le> day e"
    by (simp_all add: valid_datetime_iff)
  have i: "i = (i div 12) * 12 + i mod 12" by simp
  show ?thesis
    unfolding dt_le_def first_of_month_def month_index_def datetime.sel
    using m d i by (auto; arith)
qed

lemma dt_le_month_index:
  assumes "valid_datetime c" "valid_datetime e" "dt_le c e"
  shows "month_index c \<le> month_index e"
proof -
  from assms(1,2) have "1 \<le> month c" "month c \<le> 12" "1 \<le> month e" "month e \<le> 12"
    by (simp_all add: valid_datetime_iff)
  with assms(3) show ?thesis
    unfolding dt_le_def month_index_def
    by (auto; (metis add_le_mono diff_le_mono less_imp_le mult_le_mono1 Suc_leI)?)
qed


lemma not_last_month:
  assumes "valid_datetime e" "\<not> (year e = 9999 \<and> month e = 12)" "dt_le c e"
    and "valid_datetime c"
  shows "\<not> (year c = 9999 \<and> month c = 12)"
  using assms unfolding valid_datetime_iff dt_le_def by auto

lemma valid_next_month:
  assumes "valid_datetime c" "\<not> (year c = 9999 \<and> month c = 12)"
  shows "valid_datetime (first_of_month (Suc (month_index c)))"
proof -
  from assms(1) have m: "1 \<le> month c" "month c \<le> 12" and y: "1 \<le> year c" "year c \<le> 9999"
    by (simp_all add: valid_datetime_iff)
  show ?thesis
  proof (cases "month c = 12")
    case True
    with assms(2) y have "year c + 1 \<le> 9999" by simp
    with True m y days_in_month_ge [of 1 "year c + 1"] show ?thesis
      by (simp add: next_month_index valid_datetime_iff)
  next
    case False
    with m y days_in_month_ge [of "month c + 1" "year c"] show ?thesis
      by (simp add: next_month_index valid_datetime_iff)
  qed
qed

lemma intervals_loop_step:
  assumes "valid_datetime c" "dt_le c e" "\<not> (year c = 9999 \<and> month c = 12)"
  shows "intervals_loop e c acc =
         intervals_loop e (first_of_month (Suc (month_index c))) (acc @ [spec_interval c e 0])"
proof -
  from assms(1) have m: "1 \<le> month c" "month c \<le> 12" and y: "1 \<le> year c" "year c \<le> 9999"
    by (simp_all add: valid_datetime_iff)
  have nxt: "(if month c = 12 then datetime (year c + 1) 1 1
              else datetime (year c) (month c + 1) 1) =
             Inr (first_of_month (Suc (month_index c)))"
    using m y assms(3) by (auto simp: next_month_index datetime_first)
  have iv: "\<lparr>iv_start = strftime_ymd c,
             iv_end = strftime_ymd
               (if dt_less e (Datetime (year c) (month c) (days_in_month (year c) (month c)))
                then e else Datetime (year c) (month c) (days_in_month (year c) (month c))),
             iv_label = strftime_BY c\<rparr> = spec_interval c e 0"
    using m by (simp add: spec_interval_def dt_min_def last_of_month_index
                  first_of_month_index strftime_BY_def)
  show ?thesis
    apply (subst intervals_loop.simps)
    using assms(2) m y
    apply (simp add: monthrange_valid datetime_last nxt iv Let_def del: intervals_loop.simps)
    done
qed

lemma intervals_loop_stop:
  "\<not> dt_le c e \<Longrightarrow> intervals_loop e c acc = Inr acc"
  by (subst intervals_loop.simps) simp

lemma spec_interval_shift:
  assumes "valid_datetime c"
  shows "spec_interval (first_of_month (Suc (month_index c))) e k = spec_interval c e (Suc k)"
  by (simp add: spec_interval_def month_index_first)

lemma intervals_loop_spec:
  assumes "valid_datetime e" "\<not> (year e = 9999 \<and> month e = 12)"
  shows "valid_datetime c \<Longrightarrow> dt_le c e \<Longrightarrow> month_index e - month_index c = n \<Longrightarrow>
         intervals_loop e c acc = Inr (acc @ map (spec_interval c e) [0..<Suc n])"
proof (induction n arbitrary: c acc)
  case 0
  from dt_le_month_index [OF "0.prems"(1) assms(1) "0.prems"(2)] "0.prems"(3)
  have "\<not> month_index c + 1 \<le> month_index e" by simp
  then have stop: "\<not> dt_le (first_of_month (Suc (month_index c))) e"
    by (simp add: dt_le_first_of_month [OF assms(1)])
  from not_last_month [OF assms "0.prems"(2,1)]
  have "intervals_loop e c acc =
        intervals_loop e (first_of_month (Suc (month_index c))) (acc @ [spec_interval c e 0])"
    by (rule intervals_loop_step [OF "0.prems"(1,2)])
  with stop show ?case
    by (simp add: intervals_loop_stop del: intervals_loop.simps)
next
  case (Suc n)
  let ?next = "first_of_month (Suc (month_index c))"
  have nl: "\<not> (year c = 9999 \<and> month c = 12)"
    by (rule not_last_month [OF assms Suc.prems(2,1)])
  have v: "valid_datetime ?next"
    by (rule valid_next_month [OF Suc.prems(1) nl])
  from Suc.prems(3) have "month_index c + 1 \<le> month_index e" by simp
  then have le: "dt_le ?next e"
    by (simp add: dt_le_first_of_month [OF assms(1)])
  from Suc.prems(3) have n: "month_index e - month_index ?next = n"
    by (simp add: month_index_first)
  have "intervals_loop e c acc = intervals_loop e ?next (acc @ [spec_interval c e 0])"
    by (rule intervals_loop_step [OF Suc.prems(1,2) nl])
  also have "\<dots> = Inr ((acc @ [spec_interval c e 0]) @ map (spec_interval ?next e) [0..<Suc n])"
    by (rule Suc.IH [OF v le n])
  also have "map (spec_interval ?next e) [0..<Suc n] =
             map (\<lambda>k. spec_interval c e (Suc k)) [0..<Suc n]"
    by (simp add: spec_interval_shift [OF Suc.prems(1)] del: upt_Suc)
  finally show ?case
    by (simp add: map_upt_Suc del: intervals_loop.simps upt_Suc)
qed

lemma dt_min_last_of_month:
  assumes "valid_datetime e"
  shows "dt_min (last_of_month (month_index e)) e = e"
proof -
  from assms have m: "1 \<le> month e" "month e \<le> 12"
    and d: "day e \<le> days_in_month (year e) (month e)"
    by (simp_all add: valid_datetime_iff)
  show ?thesis
    using d by (cases e) (use m in \<open>auto simp: dt_min_def dt_less_def last_of_month_index\<close>)
qed


lemma generate_intervals_value:
  "generate_intervals =
     Inr [\<lparr>iv_start = ''2026-01-07'', iv_end = ''2026-01-31'', iv_label = ''January 2026''\<rparr>,
          \<lparr>iv_start = ''2026-02-01'', iv_end = ''2026-02-28'', iv_label = ''February 2026''\<rparr>,
          \<lparr>iv_start = ''2026-03-01'', iv_end = ''2026-03-31'', iv_label = ''March 2026''\<rparr>]"
  by (simp add: generate_intervals_def START_DATE_def END_DATE_def intervals_loop.simps
        dt_le_def dt_less_def monthrange_def datetime_def days_in_month_def isleap_def
        mdays_def strftime_ymd_def strftime_BY_def pad2_def pad4_def digit_char_def
        month_names_def Let_def)

text \<open>
  Claim C5. The loop of \<open>generate_intervals\<close>, run on a start date and an end date that
  are dates of the calendar with the start not after the end (and the end before
  December 9999, the last month a \<^verbatim>\<open>datetime\<close> can leave), returns one interval for each
  calendar month from the month of the start to the month of the end: interval \<open>k\<close> is
  the one of the closed form \<open>spec_interval\<close>, which ends on the last day of its month
  or on the end date if that comes first, and the last interval ends on the end date.
  With the configured dates 2026-01-07 and 2026-03-31 the generator returns the three
  intervals of January, February and March 2026.
\<close>

theorem generate_intervals_one_per_month:
  "(valid_datetime s \<and> valid_datetime e \<and> dt_le s e \<and> 1000 \<le> year s
      \<and> \<not> (year e = 9999 \<and> month e = 12) \<longrightarrow>
      (\<exists>ivs. intervals_loop e s [] = Inr ivs
         \<and> length ivs = month_index e - month_index s + 1
         \<and> (\<forall>k < length ivs. ivs ! k = spec_interval s e k)
         \<and> iv_end (last ivs) = strftime_ymd e))
   \<and> generate_intervals =
       Inr [\<lparr>iv_start = ''2026-01-07'', iv_end = ''2026-01-31'', iv_label = ''January 2026''\<rparr>,
            \<lparr>iv_start = ''2026-02-01'', iv_end = ''2026-02-28'', iv_label = ''February 2026''\<rparr>,
            \<lparr>iv_start = ''2026-03-01'', iv_end = ''2026-03-31'', iv_label = ''March 2026''\<rparr>]"
proof -
  have gen: "\<exists>ivs. intervals_loop e s [] = Inr ivs
         \<and> length ivs = month_index e - month_index s + 1
         \<and> (\<forall>k < length ivs. ivs ! k = spec_interval s e k)
         \<and> iv_end (last ivs) = strftime_ymd e"
    if h: "valid_datetime s" "valid_datetime e" "dt_le s e" "\<not> (year e = 9999 \<and> month e = 12)"
  proof -
    let ?n = "month_index e - month_index s"
    let ?ivs = "map (spec_interval s e) [0..<Suc ?n]"
    have run: "intervals_loop e s [] = Inr ?ivs"
      using intervals_loop_spec [OF h(2,4,1,3) refl, of "[]"] by simp
    have len: "length ?ivs = ?n + 1"
      by simp
    have nth: "\<forall>k < length ?ivs. ?ivs ! k = spec_interval s e k"
      by (simp add: nth_map_upt del: upt_Suc)
    have "month_index s + ?n = month_index e"
      using dt_le_month_index [OF h(1,2,3)] by simp
    then have "iv_end (spec_interval s e ?n) = strftime_ymd e"
      by (simp add: spec_interval_def dt_min_last_of_month [OF h(2)])
    then have lst: "iv_end (last ?ivs) = strftime_ymd e"
      by (simp add: last_map del: upt_Suc)
    from run len nth lst show ?thesis by blast
  qed
  from gen generate_intervals_value show ?thesis by blast
qed

theorem generate_intervals_one_per_month_witness:
  "valid_datetime (Datetime 2023 12 15) \<and> valid_datetime (Datetime 2024 2 29)
   \<and> dt_le (Datetime 2023 12 15) (Datetime 2024 2 29)
   \<and> (\<exists>ivs. intervals_loop (Datetime 2024 2 29) (Datetime 2023 12 15) [] = Inr ivs
         \<and> length ivs = 3
         \<and> ivs ! 1 = \<lparr>iv_start = ''2024-01-01'', iv_end = ''2024-01-31'',
                        iv_label = ''January 2024''\<rparr>
         \<and> iv_end (last ivs) = ''2024-02-29'')"
proof -
  have h: "valid_datetime (Datetime 2023 12 15) \<and> valid_datetime (Datetime 2024 2 29)
      \<and> dt_le (Datetime 2023 12 15) (Datetime 2024 2 29) \<and> 1000 \<le> year (Datetime 2023 12 15)
      \<and> \<not> (year (Datetime 2024 2 29) = 9999 \<and> month (Datetime 2024 2 29) = 12)"
    by (simp add: valid_datetime_def datetime_def days_in_month_def isleap_def mdays_def
          dt_le_def)
  with generate_intervals_one_per_month [of "Datetime 2023 12 15" "Datetime 2024 2 29"]
  obtain ivs where ivs: "intervals_loop (Datetime 2024 2 29) (Datetime 2023 12 15) [] = Inr ivs"
      "length ivs = month_index (Datetime 2024 2 29) - month_index (Datetime 2023 12 15) + 1"
      "\<forall>k < length ivs. ivs ! k = spec_interval (Datetime 2023 12 15) (Datetime 2024 2 29) k"
      "iv_end (last ivs) = strftime_ymd (Datetime 2024 2 29)"
    by blast
  from ivs(2) have l: "length ivs = 3"
    by (simp add: month_index_def)
  with ivs(3) have "ivs ! 1 = spec_interval (Datetime 2023 12 15) (Datetime 2024 2 29) 1"
    by simp
  then have n1: "ivs ! 1 = \<lparr>iv_start = ''2024-01-01'', iv_end = ''2024-01-31'',
                        iv_label = ''January 2024''\<rparr>"
    by (simp add: spec_interval_def month_index_def first_of_month_def last_of_month_def
          dt_min_def dt_less_def days_in_month_def isleap_def mdays_def strftime_ymd_def
          strftime_BY_def pad2_def pad4_def digit_char_def month_names_def)
  from ivs(4) have e: "iv_end (last ivs) = ''2024-02-29''"
    by (simp add: strftime_ymd_def pad2_def pad4_def digit_char_def)
  from h ivs(1) l n1 e show ?thesis by blast
qed

text \<open>Every label that the generator writes is a month name and a year, so none is empty.\<close>

lemma strftime_BY_not_empty: "strftime_BY dt \<noteq> []"
  by (simp add: strftime_BY_def)

lemma intervals_loop_labels:
  "intervals_loop e c acc = Inr ivs \<Longrightarrow> list_all (\<lambda>iv. iv_label iv \<noteq> []) acc \<Longrightarrow>
     list_all (\<lambda>iv. iv_label iv \<noteq> []) ivs"
proof (induction e c acc rule: intervals_loop.induct)
  case (1 end_date current intervals)
  show ?case
  proof (cases "dt_le current end_date")
    case False
    with "1.prems" show ?thesis
      by (subst (asm) intervals_loop.simps) simp
  next
    case True
    from "1.prems"(1) True obtain last_day month_end0 nxt where
      mr: "monthrange (year current) (month current) = Inr last_day"
      and me: "datetime (year current) (month current) last_day = Inr month_end0"
      and nx: "(if month current = 12 then datetime (year current + 1) 1 1
                else datetime (year current) (month current + 1) 1) = Inr nxt"
      and run: "intervals_loop end_date nxt
                 (intervals @
                   [\<lparr>iv_start = strftime_ymd current,
                     iv_end = strftime_ymd
                       (if dt_less end_date month_end0 then end_date else month_end0),
                     iv_label = strftime_BY current\<rparr>]) = Inr ivs"
      by (subst (asm) intervals_loop.simps)
         (auto simp: Let_def split: sum.splits simp del: intervals_loop.simps)
    have acc: "list_all (\<lambda>iv. iv_label iv \<noteq> [])
                 (intervals @
                   [\<lparr>iv_start = strftime_ymd current,
                     iv_end = strftime_ymd
                       (if dt_less end_date month_end0 then end_date else month_end0),
                     iv_label = strftime_BY current\<rparr>])"
      using "1.prems"(2) by (simp add: strftime_BY_not_empty)
    show ?thesis
      by (rule "1.IH" [OF True mr me refl refl refl nx run acc])
  qed
qed

text \<open>
  Why the end date must lie before December 9999: after the interval of that month the
  cursor would be the first day of the year 10000, which \<^verbatim>\<open>datetime\<close> refuses.
\<close>

lemma intervals_loop_december_9999:
  "intervals_loop (Datetime 9999 12 31) (Datetime 9999 12 1) [] = Inl ValueError"
  by (simp add: intervals_loop.simps dt_le_def dt_less_def monthrange_def datetime_def
        days_in_month_def isleap_def mdays_def Let_def)

section \<open>Properties of the effective date\<close>

lemmas date_eval = strptime_def is_digit_def digit_val_def datetime_def days_in_month_def
  isleap_def mdays_def

lemma split_T:
  "(if CHR ''T'' \<in> set s then takeWhile (\<lambda>c. c \<noteq> CHR ''T'') s else s)
     = takeWhile (\<lambda>c. c \<noteq> CHR ''T'') s"
  by (induction s) auto

lemma strptime_empty: "strptime [] = Inl ValueError"
  by (simp add: strptime_def)

lemma get_effective_date_selected:
  assumes "dict_get issue ''fields'' (JObj []) = Inr flds"
    and "dict_get flds ''status'' (JObj []) = Inr status_obj"
    and "dict_get status_obj ''name'' (JStr []) = Inr status"
    and "dict_get flds (if status = JStr ''Done'' then ''resolutiondate'' else ''updated'')
           JNull = Inr date_str"
  shows "get_effective_date issue =
           Inr (case date_str of
                  JStr s \<Rightarrow> (case strptime (takeWhile (\<lambda>c. c \<noteq> CHR ''T'') s) of
                               Inl e \<Rightarrow> None
                             | Inr d \<Rightarrow> Some d)
                | _ \<Rightarrow> None)"
  using assms
  by (cases date_str)
     (auto simp: get_effective_date_def split_T strptime_empty split: sum.splits if_splits)

text \<open>
  Claim C4. Take an issue record whose status can be read (the fields of the issue, the
  status object and its name are dictionaries where the code calls \<^verbatim>\<open>get\<close> on them),
  and let \<open>date_str\<close> be the value of the field \<open>resolutiondate\<close> if the status is
  literally \<open>Done\<close>, and of the field \<open>updated\<close> otherwise (\<^verbatim>\<open>None\<close> when the field is
  missing). Then \<open>get_effective_date\<close> returns, without raising: the date that
  \<open>strptime\<close> reads from the text of \<open>date_str\<close> before its first \<open>T\<close>, when \<open>date_str\<close>
  is a string and that text is a date; and \<^verbatim>\<open>None\<close> in every other case, that is when
  the field is absent or null, is no string, or does not parse.
\<close>

theorem get_effective_date_selected_field_truncated:
  assumes "dict_get issue ''fields'' (JObj []) = Inr flds"
    and "dict_get flds ''status'' (JObj []) = Inr status_obj"
    and "dict_get status_obj ''name'' (JStr []) = Inr status"
    and "dict_get flds (if status = JStr ''Done'' then ''resolutiondate'' else ''updated'')
           JNull = Inr date_str"
  shows "get_effective_date issue =
           Inr (case date_str of
                  JStr s \<Rightarrow> (case strptime (takeWhile (\<lambda>c. c \<noteq> CHR ''T'') s) of
                               Inl e \<Rightarrow> None
                             | Inr d \<Rightarrow> Some d)
                | _ \<Rightarrow> None)
         \<and> (date_str = JNull \<longrightarrow> get_effective_date issue = Inr None)
         \<and> (\<forall>s e. date_str = JStr s \<and> strptime (takeWhile (\<lambda>c. c \<noteq> CHR ''T'') s) = Inl e
               \<longrightarrow> get_effective_date issue = Inr None)
         \<and> (\<forall>d rest. date_str = JStr (d @ CHR ''T'' # rest) \<and> CHR ''T'' \<notin> set d
               \<longrightarrow> get_effective_date issue =
                     Inr (case strptime d of Inl e \<Rightarrow> None | Inr x \<Rightarrow> Some x))"
proof -
  note eq = get_effective_date_selected [OF assms]
  have trunc: "takeWhile (\<lambda>c. c \<noteq> CHR ''T'') (d @ CHR ''T'' # rest) = d"
    if "CHR ''T'' \<notin> set d" for d rest
    using that by (induction d) auto
  show ?thesis
    unfolding eq using trunc by auto
qed

theorem get_effective_date_selected_field_truncated_witness:
  "dict_get (JObj [(''fields'', JObj [(''status'', JObj [(''name'', JStr ''Done'')]),
        (''resolutiondate'', JStr ''2026-02-15T10:00:00Z''),
        (''updated'', JStr ''2026-03-01T08:30:00Z'')])]) ''fields'' (JObj [])
     = Inr (JObj [(''status'', JObj [(''name'', JStr ''Done'')]),
        (''resolutiondate'', JStr ''2026-02-15T10:00:00Z''),
        (''updated'', JStr ''2026-03-01T08:30:00Z'')])
   \<and> get_effective_date (JObj [(''fields'', JObj [(''status'', JObj [(''name'', JStr ''Done'')]),
        (''resolutiondate'', JStr ''2026-02-15T10:00:00Z''),
        (''updated'', JStr ''2026-03-01T08:30:00Z'')])])
     = Inr (Some (Datetime 2026 2 15))"
proof -
  let ?flds = "JObj [(''status'', JObj [(''name'', JStr ''Done'')]),
        (''resolutiondate'', JStr ''2026-02-15T10:00:00Z''),
        (''updated'', JStr ''2026-03-01T08:30:00Z'')]"
  have h1: "dict_get (JObj [(''fields'', ?flds)]) ''fields'' (JObj []) = Inr ?flds"
    by simp
  have h2: "dict_get ?flds ''status'' (JObj []) = Inr (JObj [(''name'', JStr ''Done'')])"
    by simp
  have h3: "dict_get (JObj [(''name'', JStr ''Done'')]) ''name'' (JStr []) = Inr (JStr ''Done'')"
    by simp
  have h4: "dict_get ?flds (if JStr ''Done'' = JStr ''Done'' then ''resolutiondate''
              else ''updated'') JNull = Inr (JStr ''2026-02-15T10:00:00Z'')"
    by simp
  have p: "strptime (takeWhile (\<lambda>c. c \<noteq> CHR ''T'') ''2026-02-15T10:00:00Z'')
             = Inr (Datetime 2026 2 15)"
    by (simp add: date_eval)
  from get_effective_date_selected_field_truncated [OF h1 h2 h3 h4] p h1
  show ?thesis by simp
qed

lemma digit_cases:
  "k < 10 \<Longrightarrow> k = 0 \<or> k = 1 \<or> k = 2 \<or> k = 3 \<or> k = 4 \<or> k = 5 \<or> k = 6 \<or> k = 7 \<or> k = 8
     \<or> k = (9::nat)"
  by arith

lemma digit_char_digit:
  assumes "k < 10"
  shows "is_digit (digit_char k) \<and> digit_val (digit_char k) = k"
  using digit_cases [OF assms]
  by (elim disjE) (simp_all add: is_digit_def digit_val_def digit_char_def)

lemma match_month_pad2:
  assumes "1 \<le> m" "m \<le> 12"
  shows "match_month (pad2 m @ CHR ''-'' # r) = Some (m, CHR ''-'' # r)"
  using month_cases [OF assms]
  by (elim disjE) (simp_all add: pad2_def digit_char_def digit_val_def)

lemma day_cases:
  "1 \<le> d \<Longrightarrow> d \<le> 31 \<Longrightarrow>
     d = 1 \<or> d = 2 \<or> d = 3 \<or> d = 4 \<or> d = 5 \<or> d = 6 \<or> d = 7 \<or> d = 8 \<or> d = 9 \<or> d = 10
     \<or> d = 11 \<or> d = 12 \<or> d = 13 \<or> d = 14 \<or> d = 15 \<or> d = 16 \<or> d = 17 \<or> d = 18 \<or> d = 19
     \<or> d = 20 \<or> d = 21 \<or> d = 22 \<or> d = 23 \<or> d = 24 \<or> d = 25 \<or> d = 26 \<or> d = 27 \<or> d = 28
     \<or> d = 29 \<or> d = 30 \<or> d = (31::nat)"
  by arith

lemma match_day_pad2:
  assumes "1 \<le> d" "d \<le> 31"
  shows "match_day (pad2 d) = Some (d, [])"
  using day_cases [OF assms]
  by (elim disjE) (simp_all add: pad2_def digit_char_def digit_val_def is_digit_def)

lemma days_in_month_le:
  assumes "1 \<le> m" "m \<le> 12"
  shows "days_in_month y m \<le> 31"
  using month_cases [OF assms]
  by (elim disjE) (simp_all add: days_in_month_def mdays_def)

lemma decimal_digits:
  assumes "y \<le> 9999"
  shows "1000 * (y div 1000 mod 10) + 100 * (y div 100 mod 10) + 10 * (y div 10 mod 10)
           + y mod 10 = (y::nat)"
proof -
  have h1: "y div 100 = y div 10 div 10"
    using div_mult2_eq [of y 10 10] by simp
  have h2: "y div 1000 = y div 100 div 10"
    using div_mult2_eq [of y 100 10] by simp
  have a: "y = 10 * (y div 10) + y mod 10"
    by simp
  have b: "y div 10 = 10 * (y div 100) + y div 10 mod 10"
    unfolding h1 by simp
  have c: "y div 100 = 10 * (y div 1000) + y div 100 mod 10"
    unfolding h2 by simp
  from assms have "y div 1000 < 10"
    by simp
  then have e: "y div 1000 mod 10 = y div 1000"
    by simp
  from a b c e show ?thesis
    by linarith
qed

text \<open>
  The text that \<open>strftime_ymd\<close> prints for a date of the calendar is read back by
  \<open>strptime\<close> as that date: the bounds that the generator writes into an interval are
  the dates that the processor compares with. (The year is printed with four digits
  here; Python does so from the year 1000 on.)
\<close>

lemma strptime_strftime_ymd:
  assumes "valid_datetime d"
  shows "strptime (strftime_ymd d) = Inr d"
proof -
  from assms have y: "1 \<le> year d" "year d \<le> 9999" and m: "1 \<le> month d" "month d \<le> 12"
    and dd: "1 \<le> day d" "day d \<le> days_in_month (year d) (month d)"
    by (simp_all add: valid_datetime_iff)
  from dd days_in_month_le [OF m, of "year d"] have d31: "day d \<le> 31"
    by simp
  have dig: "is_digit (digit_char (k mod 10))" "digit_val (digit_char (k mod 10)) = k mod 10"
    for k
    using digit_char_digit [of "k mod 10"] by simp_all
  have dt: "datetime (year d) (month d) (day d) = Inr d"
    using assms by (simp add: valid_datetime_def)
  show ?thesis
    unfolding strptime_def strftime_ymd_def pad4_def
    using dt
    by (simp add: dig match_month_pad2 [OF m] match_day_pad2 [OF dd(1) d31]
          decimal_digits [OF y(2)] del: One_nat_def)
qed

section \<open>Properties of the remote fetcher\<close>

lemma good_pages_ConsE:
  assumes "good_pages post jql w token ((items, token') # rest) = Some r"
  obtains data w' where
    "post w jql (if truthy token then Some token else None) = (Response 200 (Some data), w')"
    "dict_get data ''issues'' (JArr []) = Inr (JArr items)"
    "dict_get data ''nextPageToken'' JNull = Inr token'"
    "truthy token'"
    "good_pages post jql w' token' rest = Some r"
  using assms
  by (auto split: prod.splits reply.splits option.splits if_splits)

lemma fetch_issues_loop_good_pages:
  "good_pages post jql w token pages = Some (w1, token1) \<Longrightarrow>
     fetch_issues_loop post jql acc token w =
       fetch_issues_loop post jql (acc @ concat (map fst pages)) token1 w1"
proof (induction pages arbitrary: w token acc)
  case Nil
  then show ?case by simp
next
  case (Cons page pages)
  obtain items token' where page: "page = (items, token')"
    by (cases page)
  from Cons.prems obtain data w' where
    step: "post w jql (if truthy token then Some token else None) = (Response 200 (Some data), w')"
      "dict_get data ''issues'' (JArr []) = Inr (JArr items)"
      "dict_get data ''nextPageToken'' JNull = Inr token'"
      "truthy token'"
    and rest: "good_pages post jql w' token' pages = Some (w1, token1)"
    unfolding page by (rule good_pages_ConsE)
  have "fetch_issues_loop post jql acc token w =
        fetch_issues_loop post jql (acc @ items) token' w'"
    by (subst fetch_issues_loop.simps) (simp add: step)
  also have "\<dots> = fetch_issues_loop post jql ((acc @ items) @ concat (map fst pages)) token1 w1"
    by (rule Cons.IH [OF rest])
  finally show ?case
    by (simp add: page)
qed

lemma child_issues_loop_good_pages:
  "good_pages post jql w token pages = Some (w1, token1) \<Longrightarrow>
     child_issues_loop post jql acc token w =
       child_issues_loop post jql (acc @ concat (map fst pages)) token1 w1"
proof (induction pages arbitrary: w token acc)
  case Nil
  then show ?case by simp
next
  case (Cons page pages)
  obtain items token' where page: "page = (items, token')"
    by (cases page)
  from Cons.prems obtain data w' where
    step: "post w jql (if truthy token then Some token else None) = (Response 200 (Some data), w')"
      "dict_get data ''issues'' (JArr []) = Inr (JArr items)"
      "dict_get data ''nextPageToken'' JNull = Inr token'"
      "truthy token'"
    and rest: "good_pages post jql w' token' pages = Some (w1, token1)"
    unfolding page by (rule good_pages_ConsE)
  have "child_issues_loop post jql acc token w =
        child_issues_loop post jql (acc @ items) token' w'"
    by (subst child_issues_loop.simps) (simp add: step)
  also have "\<dots> = child_issues_loop post jql ((acc @ items) @ concat (map fst pages)) token1 w1"
    by (rule Cons.IH [OF rest])
  finally show ?case
    by (simp add: page)
qed

lemma fetch_issues_loop_last_page:
  assumes "post w jql (if truthy token then Some token else None) = (Response 200 (Some data), w')"
    and "dict_get data ''issues'' (JArr []) = Inr (JArr items)"
    and "dict_get data ''nextPageToken'' JNull = Inr last_token"
    and "\<not> truthy last_token"
  shows "fetch_issues_loop post jql acc token w = Some (acc @ items, w')"
  by (subst fetch_issues_loop.simps) (simp add: assms)

lemma child_issues_loop_last_page:
  assumes "post w jql (if truthy token then Some token else None) = (Response 200 (Some data), w')"
    and "dict_get data ''issues'' (JArr []) = Inr (JArr items)"
    and "dict_get data ''nextPageToken'' JNull = Inr last_token"
    and "\<not> truthy last_token"
  shows "child_issues_loop post jql acc token w = Some (Some (acc @ items), w')"
  by (subst child_issues_loop.simps) (simp add: assms)

lemma fetch_issues_loop_failed:
  assumes "post w jql (if truthy token then Some token else None) = (r, w')" and "failed r"
  shows "fetch_issues_loop post jql acc token w = Some (acc, w')"
  using assms(2)
  by (subst fetch_issues_loop.simps) (simp add: assms(1) failed_def split: reply.splits)

lemma child_issues_loop_failed:
  assumes "post w jql (if truthy token then Some token else None) = (r, w')" and "failed r"
  shows "child_issues_loop post jql acc token w = Some (None, w')"
  using assms(2)
  by (subst child_issues_loop.simps) (simp add: assms(1) failed_def split: reply.splits)

text \<open>
  Claim C7. Let the server answer the query with a list of pages, each request after
  the first carrying the continuation token of the page before, and then with a last
  page that carries no token (a missing, null or empty \<open>nextPageToken\<close>). Then the
  fetch returns, and its result is the records of all pages in the order in which they
  came: those of the pages with a token, page after page, followed by those of the last
  page. The world it leaves is the one after the request of the last page, so no
  request follows the page without a token. The loop over the child issues returns the
  same list.
\<close>

theorem fetch_issues_by_jql_concatenates_pages:
  assumes "good_pages post jql w JNull pages = Some (w1, token)"
    and "post w1 jql (if truthy token then Some token else None) = (Response 200 (Some data), w2)"
    and "dict_get data ''issues'' (JArr []) = Inr (JArr items)"
    and "dict_get data ''nextPageToken'' JNull = Inr last_token"
    and "\<not> truthy last_token"
  shows "fetch_issues_by_jql post jql w = Some (concat (map fst pages) @ items, w2)
       \<and> child_issues_loop post jql [] JNull w = Some (Some (concat (map fst pages) @ items), w2)"
proof -
  have "fetch_issues_loop post jql [] JNull w =
        fetch_issues_loop post jql ([] @ concat (map fst pages)) token w1"
    by (rule fetch_issues_loop_good_pages [OF assms(1)])
  also have "\<dots> = Some (([] @ concat (map fst pages)) @ items, w2)"
    by (rule fetch_issues_loop_last_page [OF _ assms(3-5)]) (rule assms(2))
  finally have a: "fetch_issues_by_jql post jql w = Some (concat (map fst pages) @ items, w2)"
    by (simp add: fetch_issues_by_jql_def)
  have "child_issues_loop post jql [] JNull w =
        child_issues_loop post jql ([] @ concat (map fst pages)) token w1"
    by (rule child_issues_loop_good_pages [OF assms(1)])
  also have "\<dots> = Some (Some (([] @ concat (map fst pages)) @ items), w2)"
    by (rule child_issues_loop_last_page [OF _ assms(3-5)]) (rule assms(2))
  finally have b: "child_issues_loop post jql [] JNull w =
      Some (Some (concat (map fst pages) @ items), w2)"
    by simp
  from a b show ?thesis by blast
qed

theorem fetch_issues_by_jql_concatenates_pages_witness:
  "good_pages
     (scripted_server
        [Response 200 (Some (JObj [(''issues'', JArr [JObj [(''key'', JStr ''A-1'')],
                                                     JObj [(''key'', JStr ''A-2'')]]),
                                   (''nextPageToken'', JStr ''page2'')])),
         Response 200 (Some (JObj [(''issues'', JArr [JObj [(''key'', JStr ''A-3'')]])]))])
     ''project = A'' 0 JNull
     [([JObj [(''key'', JStr ''A-1'')], JObj [(''key'', JStr ''A-2'')]], JStr ''page2'')]
     = Some (1, JStr ''page2'')
   \<and> fetch_issues_by_jql
     (scripted_server
        [Response 200 (Some (JObj [(''issues'', JArr [JObj [(''key'', JStr ''A-1'')],
                                                     JObj [(''key'', JStr ''A-2'')]]),
                                   (''nextPageToken'', JStr ''page2'')])),
         Response 200 (Some (JObj [(''issues'', JArr [JObj [(''key'', JStr ''A-3'')]])]))])
     ''project = A'' 0
     = Some ([JObj [(''key'', JStr ''A-1'')], JObj [(''key'', JStr ''A-2'')],
              JObj [(''key'', JStr ''A-3'')]], 2)"
proof -
  let ?page2 = "JObj [(''issues'', JArr [JObj [(''key'', JStr ''A-3'')]])]"
  let ?srv = "scripted_server
        [Response 200 (Some (JObj [(''issues'', JArr [JObj [(''key'', JStr ''A-1'')],
                                                     JObj [(''key'', JStr ''A-2'')]]),
                                   (''nextPageToken'', JStr ''page2'')])),
         Response 200 (Some ?page2)]"
  have h1: "good_pages ?srv ''project = A'' 0 JNull
     [([JObj [(''key'', JStr ''A-1'')], JObj [(''key'', JStr ''A-2'')]], JStr ''page2'')]
     = Some (1, JStr ''page2'')"
    by (simp add: scripted_server_def)
  have h2: "?srv 1 ''project = A'' (if truthy (JStr ''page2'') then Some (JStr ''page2'') else None)
     = (Response 200 (Some ?page2), 2)"
    by (simp add: scripted_server_def)
  have h3: "dict_get ?page2 ''issues'' (JArr []) = Inr (JArr [JObj [(''key'', JStr ''A-3'')]])"
    by simp
  have h4: "dict_get ?page2 ''nextPageToken'' JNull = Inr JNull"
    by simp
  have h5: "\<not> truthy JNull"
    by simp
  from fetch_issues_by_jql_concatenates_pages [OF h1 h2 h3 h4 h5] h1
  show ?thesis by simp
qed

text \<open>
  Claim C8, as the code has it. Let the server answer the query with a list of pages that
  carry tokens and then, at the next request, with a transport error or with a status
  code other than 200. Then \<open>fetch_issues_by_jql\<close>, the fetch of the initiatives and of
  every batch of epics, returns the records of the pages received (none when the first
  request fails), and the world it leaves is the one after the failed request: it makes
  no further request. The loop over the child issues stops at the same request, but it
  keeps nothing of the pages received, and \<open>fetch_jira_issues\<close> then returns three empty
  lists.
\<close>

theorem fetch_stops_at_failure:
  assumes "good_pages post jql w JNull pages = Some (w1, token)"
    and "post w1 jql (if truthy token then Some token else None) = (r, w2)"
    and "failed r"
  shows "fetch_issues_by_jql post jql w = Some (concat (map fst pages), w2)
       \<and> child_issues_loop post jql [] JNull w = Some (None, w2)
       \<and> (jql = child_jql \<and> JIRA_EMAIL \<noteq> [] \<and> JIRA_API_TOKEN \<noteq> []
            \<and> fetch_initiatives post w0 = Some (initiatives, wa)
            \<and> initiative_keys_of initiatives = Inr initiative_keys
            \<and> fetch_epics_for_initiatives post initiative_keys wa = Some (Inr epics, w)
          \<longrightarrow> fetch_jira_issues JIRA_EMAIL JIRA_API_TOKEN post w0 = Some (Inr ([], [], []), w2))"
proof -
  have "fetch_issues_loop post jql [] JNull w =
        fetch_issues_loop post jql ([] @ concat (map fst pages)) token w1"
    by (rule fetch_issues_loop_good_pages [OF assms(1)])
  also have "\<dots> = Some ([] @ concat (map fst pages), w2)"
    by (rule fetch_issues_loop_failed [OF _ assms(3)]) (rule assms(2))
  finally have a: "fetch_issues_by_jql post jql w = Some (concat (map fst pages), w2)"
    by (simp add: fetch_issues_by_jql_def)
  have "child_issues_loop post jql [] JNull w =
        child_issues_loop post jql ([] @ concat (map fst pages)) token w1"
    by (rule child_issues_loop_good_pages [OF assms(1)])
  also have "\<dots> = Some (None, w2)"
    by (rule child_issues_loop_failed [OF _ assms(3)]) (rule assms(2))
  finally have b: "child_issues_loop post jql [] JNull w = Some (None, w2)" .
  from b have c: "fetch_jira_issues JIRA_EMAIL JIRA_API_TOKEN post w0 = Some (Inr ([], [], []), w2)"
    if "jql = child_jql" "JIRA_EMAIL \<noteq> []" "JIRA_API_TOKEN \<noteq> []"
      "fetch_initiatives post w0 = Some (initiatives, wa)"
      "initiative_keys_of initiatives = Inr initiative_keys"
      "fetch_epics_for_initiatives post initiative_keys wa = Some (Inr epics, w)"
    using that by (simp add: fetch_jira_issues_def)
  from a b c show ?thesis by blast
qed

theorem fetch_stops_at_failure_witness:
  "good_pages
     (scripted_server
        [Response 200 (Some (JObj [(''issues'', JArr [JObj [(''key'', JStr ''A-1'')]]),
                                   (''nextPageToken'', JStr ''page2'')])),
         Response 503 None,
         Response 200 (Some (JObj [(''issues'', JArr [JObj [(''key'', JStr ''A-2'')]])]))])
     ''project = A'' 0 JNull [([JObj [(''key'', JStr ''A-1'')]], JStr ''page2'')]
     = Some (1, JStr ''page2'')
   \<and> failed (Response 503 None)
   \<and> fetch_issues_by_jql
     (scripted_server
        [Response 200 (Some (JObj [(''issues'', JArr [JObj [(''key'', JStr ''A-1'')]]),
                                   (''nextPageToken'', JStr ''page2'')])),
         Response 503 None,
         Response 200 (Some (JObj [(''issues'', JArr [JObj [(''key'', JStr ''A-2'')]])]))])
     ''project = A'' 0
     = Some ([JObj [(''key'', JStr ''A-1'')]], 2)"
proof -
  let ?srv = "scripted_server
        [Response 200 (Some (JObj [(''issues'', JArr [JObj [(''key'', JStr ''A-1'')]]),
                                   (''nextPageToken'', JStr ''page2'')])),
         Response 503 None,
         Response 200 (Some (JObj [(''issues'', JArr [JObj [(''key'', JStr ''A-2'')]])]))]"
  have h1: "good_pages ?srv ''project = A'' 0 JNull [([JObj [(''key'', JStr ''A-1'')]], JStr ''page2'')]
     = Some (1, JStr ''page2'')"
    by (simp add: scripted_server_def)
  have h2: "?srv 1 ''project = A'' (if truthy (JStr ''page2'') then Some (JStr ''page2'') else None)
     = (Response 503 None, 2)"
    by (simp add: scripted_server_def)
  have h3: "failed (Response 503 None)"
    by (simp add: failed_def)
  from fetch_stops_at_failure [OF h1 h2 h3] h1 h3
  show ?thesis by simp
qed

text \<open>
  Claim C8 as the specification words it extends the partial result to the loop over the
  child issues. A run of \<open>fetch_jira_issues\<close> against it: the query of the initiatives
  finds none, the first page of child issues arrives with one record and a token, and the
  request of the second page fails. The one record received is not returned.
\<close>

theorem child_fetch_partial_result_counterexample:
  "good_pages
     (scripted_server
        [Response 200 (Some (JObj [(''issues'', JArr [])])),
         Response 200 (Some (JObj [(''issues'', JArr [JObj [(''key'', JStr ''A-1'')]]),
                                   (''nextPageToken'', JStr ''page2'')])),
         TransportError])
     child_jql 1 JNull [([JObj [(''key'', JStr ''A-1'')]], JStr ''page2'')]
     = Some (2, JStr ''page2'')
   \<and> scripted_server
        [Response 200 (Some (JObj [(''issues'', JArr [])])),
         Response 200 (Some (JObj [(''issues'', JArr [JObj [(''key'', JStr ''A-1'')]]),
                                   (''nextPageToken'', JStr ''page2'')])),
         TransportError]
        2 child_jql (Some (JStr ''page2'')) = (TransportError, 3)
   \<and> fetch_jira_issues ''user'' ''secret''
     (scripted_server
        [Response 200 (Some (JObj [(''issues'', JArr [])])),
         Response 200 (Some (JObj [(''issues'', JArr [JObj [(''key'', JStr ''A-1'')]]),
                                   (''nextPageToken'', JStr ''page2'')])),
         TransportError]) 0
     = Some (Inr ([], [], []), 3)
   \<and> fetch_jira_issues ''user'' ''secret''
     (scripted_server
        [Response 200 (Some (JObj [(''issues'', JArr [])])),
         Response 200 (Some (JObj [(''issues'', JArr [JObj [(''key'', JStr ''A-1'')]]),
                                   (''nextPageToken'', JStr ''page2'')])),
         TransportError]) 0
     \<noteq> Some (Inr ([JObj [(''key'', JStr ''A-1'')]], [], []), 3)"
  by (simp add: scripted_server_def fetch_jira_issues_def fetch_initiatives_def
        fetch_issues_by_jql_def fetch_issues_loop.simps child_issues_loop.simps
        fetch_epics_for_initiatives_def)

section \<open>Properties of the processor\<close>

lemma week_label_loop_find:
  "week_label_loop intervals d = Inr r \<Longrightarrow>
     r = map_option iv_label (find (\<lambda>iv. interval_contains iv d) intervals)"
  by (induction intervals arbitrary: r)
     (auto simp: interval_contains_def split: sum.splits if_splits)

lemma week_label_of_spec:
  assumes "week_label_of intervals status eff = Inr wl"
    and "list_all (\<lambda>iv. iv_label iv \<noteq> []) intervals"
  shows "wl = spec_week_label intervals (is_completed status) eff"
proof (cases "is_completed status")
  case False
  with assms(1) show ?thesis
    by (auto simp: week_label_of_def spec_week_label_def split: option.splits)
next
  case True
  show ?thesis
  proof (cases eff)
    case None
    with assms(1) True show ?thesis
      by (simp add: week_label_of_def spec_week_label_def)
  next
    case (Some d)
    with assms(1) True obtain r where run: "week_label_loop intervals d = Inr r"
      by (auto simp: week_label_of_def split: sum.splits)
    note r = week_label_loop_find [OF run]
    show ?thesis
    proof (cases "find (\<lambda>iv. interval_contains iv d) intervals")
      case None
      with r have "r = None" by simp
      with assms(1) True Some run None show ?thesis
        by (auto simp: week_label_of_def spec_week_label_def split: list.splits)
    next
      case found: (Some iv)
      then have "iv \<in> set intervals"
        by (auto simp: find_Some_iff)
      with assms(2) have "iv_label iv \<noteq> []"
        by (simp add: list_all_iff)
      moreover from r found have "r = Some (iv_label iv)" by simp
      ultimately show ?thesis
        using assms(1) True Some run found
        by (simp add: week_label_of_def spec_week_label_def)
    qed
  qed
qed

lemma process_issue_row:
  assumes "process_issue intervals st issue = Inr st'"
    and "list_all (\<lambda>iv. iv_label iv \<noteq> []) intervals"
  shows "\<exists>row. processed st' = processed st @ [row] \<and> row_matches_spec intervals issue row"
proof -
  from assms(1) obtain flds status eff wl row where
    f: "dict_get issue ''fields'' (JObj []) = Inr flds"
    and s: "status_name_of flds = Inr status"
    and e: "get_effective_date issue = Inr eff"
    and w: "week_label_of intervals status eff = Inr wl"
    and p: "processed st' = processed st @ [row]"
    and row: "row_status row = status" "row_isCompleted row = is_completed status"
      "row_effectiveDate row = map_option strftime_ymd eff" "row_weekLabel row = wl"
    unfolding process_issue_def
    by (fastforce split: sum.splits if_splits)
  from week_label_of_spec [OF w assms(2)] f s e row
  have "row_matches_spec intervals issue row"
    by (simp add: row_matches_spec_def)
  with p show ?thesis by blast
qed

lemma process_issues_loop_rows:
  assumes "list_all (\<lambda>iv. iv_label iv \<noteq> []) intervals"
  shows "process_issues_loop intervals st issues = Inr st' \<Longrightarrow>
     \<exists>rows. processed st' = processed st @ rows
           \<and> list_all2 (row_matches_spec intervals) issues rows"
proof (induction issues arbitrary: st)
  case Nil
  then show ?case by simp
next
  case (Cons issue issues)
  from Cons.prems obtain st1 where
    one: "process_issue intervals st issue = Inr st1"
    and rest: "process_issues_loop intervals st1 issues = Inr st'"
    by (auto split: sum.splits)
  from process_issue_row [OF one assms] obtain row where
    row: "processed st1 = processed st @ [row]" "row_matches_spec intervals issue row"
    by blast
  from Cons.IH [OF rest] obtain rows where
    rows: "processed st' = processed st1 @ rows"
      "list_all2 (row_matches_spec intervals) issues rows"
    by blast
  from row rows have "processed st' = processed st @ (row # rows)
      \<and> list_all2 (row_matches_spec intervals) (issue # issues) (row # rows)"
    by simp
  then show ?case by blast
qed

lemma status_examples:
  "get_status_group (JStr ''Done'') = Inr ''Done''"
  "get_status_group (JStr ''In Progress'') = Inr ''Dev In Prog''"
  "is_completed (JStr ''Done'') = True"
  "is_completed (JStr ''In Progress'') = False"
  by code_simp+

text \<open>
  Claim C6. Let \<open>process_issues\<close> return a dataset for a list of child issues and a
  sequence of intervals whose labels are not empty, as the labels of the generator are
  (a month name and a year). Then the rows of the dataset are the issues in order, and
  every row agrees with the specification: its completion flag is \<open>is_completed\<close> of
  the status name, and its interval label is the label of the first interval that holds
  the effective date when the issue is completed and has an effective date, the label
  of the first interval when no interval holds that date and the date is before the
  configured start date, and null in every other case. So an issue that is not
  completed has no label, whatever its dates.
\<close>

theorem process_issues_week_label:
  assumes "process_issues now issues intervals initiatives epics = Inr data"
    and "list_all (\<lambda>iv. iv_label iv \<noteq> []) intervals"
  shows "list_all2 (row_matches_spec intervals) issues (ds_issues data)
       \<and> (\<forall>i < length issues. \<not> row_isCompleted (ds_issues data ! i)
              \<longrightarrow> row_weekLabel (ds_issues data ! i) = None)"
proof -
  from assms(1) obtain st where
    loop: "process_issues_loop intervals
             \<lparr>processed = [], projects = [], issue_types = [], status_groups = []\<rparr> issues
           = Inr st"
    and rows: "ds_issues data = processed st"
    by (auto simp: process_issues_def split: sum.splits)
  from process_issues_loop_rows [OF assms(2) loop] rows
  have all: "list_all2 (row_matches_spec intervals) issues (ds_issues data)"
    by simp
  have "row_weekLabel (ds_issues data ! i) = None"
    if "i < length issues" "\<not> row_isCompleted (ds_issues data ! i)" for i
  proof -
    from all that(1) have "row_matches_spec intervals (issues ! i) (ds_issues data ! i)"
      by (simp add: list_all2_conv_all_nth)
    with that(2) show ?thesis
      by (auto simp: row_matches_spec_def spec_week_label_def split: sum.splits option.splits)
  qed
  with all show ?thesis by blast
qed

theorem process_issues_week_label_witness:
  "list_all (\<lambda>iv. iv_label iv \<noteq> [])
     [\<lparr>iv_start = ''2026-01-07'', iv_end = ''2026-01-31'', iv_label = ''January 2026''\<rparr>,
      \<lparr>iv_start = ''2026-02-01'', iv_end = ''2026-02-28'', iv_label = ''February 2026''\<rparr>,
      \<lparr>iv_start = ''2026-03-01'', iv_end = ''2026-03-31'', iv_label = ''March 2026''\<rparr>]
   \<and> (\<exists>data.
        process_issues ''2026-03-02T06:15:00Z''
          [JObj [(''key'', JStr ''A-1''),
                 (''fields'', JObj [(''status'', JObj [(''name'', JStr ''Done'')]),
                                    (''resolutiondate'', JStr ''2026-02-15T10:00:00Z'')])],
           JObj [(''key'', JStr ''A-2''),
                 (''fields'', JObj [(''status'', JObj [(''name'', JStr ''In Progress'')]),
                                    (''updated'', JStr ''2026-02-20T09:00:00Z'')])],
           JObj [(''key'', JStr ''A-3''),
                 (''fields'', JObj [(''status'', JObj [(''name'', JStr ''Done'')]),
                                    (''resolutiondate'', JStr ''2025-12-01T08:00:00Z'')])]]
          [\<lparr>iv_start = ''2026-01-07'', iv_end = ''2026-01-31'', iv_label = ''January 2026''\<rparr>,
           \<lparr>iv_start = ''2026-02-01'', iv_end = ''2026-02-28'', iv_label = ''February 2026''\<rparr>,
           \<lparr>iv_start = ''2026-03-01'', iv_end = ''2026-03-31'', iv_label = ''March 2026''\<rparr>]
          [] [] = Inr data
        \<and> map row_isCompleted (ds_issues data) = [True, False, True]
        \<and> map row_effectiveDate (ds_issues data)
            = [Some ''2026-02-15'', Some ''2026-02-20'', Some ''2025-12-01'']
        \<and> map row_weekLabel (ds_issues data)
            = [Some ''February 2026'', None, Some ''January 2026''])"
proof -
  let ?ivs = "[\<lparr>iv_start = ''2026-01-07'', iv_end = ''2026-01-31'', iv_label = ''January 2026''\<rparr>,
      \<lparr>iv_start = ''2026-02-01'', iv_end = ''2026-02-28'', iv_label = ''February 2026''\<rparr>,
      \<lparr>iv_start = ''2026-03-01'', iv_end = ''2026-03-31'', iv_label = ''March 2026''\<rparr>]"
  let ?i1 = "JObj [(''key'', JStr ''A-1''),
                 (''fields'', JObj [(''status'', JObj [(''name'', JStr ''Done'')]),
                                    (''resolutiondate'', JStr ''2026-02-15T10:00:00Z'')])]"
  let ?i2 = "JObj [(''key'', JStr ''A-2''),
                 (''fields'', JObj [(''status'', JObj [(''name'', JStr ''In Progress'')]),
                                    (''updated'', JStr ''2026-02-20T09:00:00Z'')])]"
  let ?i3 = "JObj [(''key'', JStr ''A-3''),
                 (''fields'', JObj [(''status'', JObj [(''name'', JStr ''Done'')]),
                                    (''resolutiondate'', JStr ''2025-12-01T08:00:00Z'')])]"
  have labels: "list_all (\<lambda>iv. iv_label iv \<noteq> []) ?ivs"
    by simp
  have d1: "get_effective_date ?i1 = Inr (Some (Datetime 2026 2 15))"
    and d2: "get_effective_date ?i2 = Inr (Some (Datetime 2026 2 20))"
    and d3: "get_effective_date ?i3 = Inr (Some (Datetime 2025 12 1))"
    by (simp_all add: get_effective_date_def date_eval)
  have w1: "week_label_of ?ivs (JStr ''Done'') (Some (Datetime 2026 2 15)) = Inr (Some ''February 2026'')"
    and w3: "week_label_of ?ivs (JStr ''Done'') (Some (Datetime 2025 12 1)) = Inr (Some ''January 2026'')"
    by (simp_all add: week_label_of_def status_examples date_eval dt_le_def dt_less_def
          START_DATE_def)
  have w2: "week_label_of ?ivs (JStr ''In Progress'') (Some (Datetime 2026 2 20)) = Inr None"
    by (simp add: week_label_of_def status_examples)
  have "\<exists>data. process_issues ''2026-03-02T06:15:00Z'' [?i1, ?i2, ?i3] ?ivs [] [] = Inr data"
    by (simp add: process_issues_def process_issue_def status_name_of_def parent_key_of_def
          status_examples d1 d2 d3 w1 w2 w3 py_sorted_def set_add_def del: One_nat_def)
  then obtain data where
    run: "process_issues ''2026-03-02T06:15:00Z'' [?i1, ?i2, ?i3] ?ivs [] [] = Inr data"
    by blast
  from process_issues_week_label [OF run labels]
  have "list_all2 (row_matches_spec ?ivs) [?i1, ?i2, ?i3] (ds_issues data)"
    by blast
  then obtain r1 r2 r3 where rows: "ds_issues data = [r1, r2, r3]"
    and r1: "row_matches_spec ?ivs ?i1 r1"
    and r2: "row_matches_spec ?ivs ?i2 r2"
    and r3: "row_matches_spec ?ivs ?i3 r3"
    by (auto simp: list_all2_Cons1)
  have s1: "spec_week_label ?ivs True (Some (Datetime 2026 2 15)) = Some ''February 2026''"
    and s3: "spec_week_label ?ivs True (Some (Datetime 2025 12 1)) = Some ''January 2026''"
    by (simp_all add: spec_week_label_def interval_contains_def date_eval dt_le_def dt_less_def
          START_DATE_def)
  have f: "strftime_ymd (Datetime 2026 2 15) = ''2026-02-15''"
    "strftime_ymd (Datetime 2026 2 20) = ''2026-02-20''"
    "strftime_ymd (Datetime 2025 12 1) = ''2025-12-01''"
    by (simp_all add: strftime_ymd_def pad2_def pad4_def digit_char_def)
  from r1 have a1: "row_isCompleted r1 = True" "row_effectiveDate r1 = Some ''2026-02-15''"
      "row_weekLabel r1 = Some ''February 2026''"
    by (simp_all add: row_matches_spec_def status_name_of_def status_examples d1 s1 f)
  from r2 have a2: "row_isCompleted r2 = False" "row_effectiveDate r2 = Some ''2026-02-20''"
      "row_weekLabel r2 = None"
    by (simp_all add: row_matches_spec_def status_name_of_def status_examples d2 f
          spec_week_label_def)
  from r3 have a3: "row_isCompleted r3 = True" "row_effectiveDate r3 = Some ''2025-12-01''"
      "row_weekLabel r3 = Some ''January 2026''"
    by (simp_all add: row_matches_spec_def status_name_of_def status_examples d3 s3 f
          del: One_nat_def)
  from labels run rows a1 a2 a3 show ?thesis
    by simp
qed

section \<open>Properties of the run\<close>

lemma main_cases:
  assumes "main E T dumps post world = Some (res, world')"
  obtains (raised) e r where
      "fetch_jira_issues E T post (remote world) = Some (Inl e, r)"
      "res = Inl e" "world' = world\<lparr>remote := r\<rparr>"
  | (empty) initiatives epics r where
      "fetch_jira_issues E T post (remote world) = Some (Inr ([], initiatives, epics), r)"
      "res = Inr False" "world' = world\<lparr>remote := r\<rparr>"
  | (failed) issues initiatives epics r e where
      "fetch_jira_issues E T post (remote world) = Some (Inr (issues, initiatives, epics), r)"
      "issues \<noteq> []" "res = Inl e" "world' = world\<lparr>remote := r\<rparr>"
  | (written) issues initiatives epics r html where
      "fetch_jira_issues E T post (remote world) = Some (Inr (issues, initiatives, epics), r)"
      "issues \<noteq> []" "res = Inr True" "world' = world\<lparr>remote := r, output_file := Some html\<rparr>"
  using assms unfolding main_def
  by (auto split: option.splits sum.splits prod.splits if_splits)

text \<open>
  Claim C9, as the code has it. A run exits with status 0 only if the fetch returned
  at least one child issue. When the fetch returns no child issue, which is what it
  does without credentials (no request is made then) and after an error of the child
  fetch, \<open>main\<close> returns \<^verbatim>\<open>False\<close>, the exit status is 1 and the output file is the one
  from before the run. More generally a run that ends with a status other than 0 leaves
  the output file as it was.
\<close>

theorem main_succeeds_only_with_child_issues:
  "(main E T dumps post world = Some (res, world') \<and> exit_status res = 0 \<longrightarrow>
      (\<exists>issues initiatives epics r.
         fetch_jira_issues E T post (remote world) = Some (Inr (issues, initiatives, epics), r)
         \<and> issues \<noteq> []))
   \<and> (fetch_jira_issues E T post (remote world) = Some (Inr ([], initiatives0, epics0), r0) \<longrightarrow>
        main E T dumps post world = Some (Inr False, world\<lparr>remote := r0\<rparr>)
        \<and> exit_status (Inr False) = 1
        \<and> output_file (world\<lparr>remote := r0\<rparr>) = output_file world)
   \<and> (E = [] \<or> T = [] \<longrightarrow> main E T dumps post world = Some (Inr False, world))
   \<and> (main E T dumps post world = Some (res, world') \<and> exit_status res \<noteq> 0 \<longrightarrow>
        output_file world' = output_file world)"
proof -
  have a: "\<exists>issues initiatives epics r.
         fetch_jira_issues E T post (remote world) = Some (Inr (issues, initiatives, epics), r)
         \<and> issues \<noteq> []"
    if "main E T dumps post world = Some (res, world')" "exit_status res = 0"
    using that(1)
  proof (cases rule: main_cases)
    case written
    then show ?thesis by blast
  qed (use that(2) in \<open>simp_all add: exit_status_def\<close>)
  have b: "main E T dumps post world = Some (Inr False, world\<lparr>remote := r0\<rparr>)
        \<and> exit_status (Inr False) = 1
        \<and> output_file (world\<lparr>remote := r0\<rparr>) = output_file world"
    if "fetch_jira_issues E T post (remote world) = Some (Inr ([], initiatives0, epics0), r0)"
    using that by (simp add: main_def exit_status_def)
  have c: "main E T dumps post world = Some (Inr False, world)" if "E = [] \<or> T = []"
    using that by (auto simp: main_def fetch_jira_issues_def)
  have d: "output_file world' = output_file world"
    if "main E T dumps post world = Some (res, world')" "exit_status res \<noteq> 0"
    using that(1)
  proof (cases rule: main_cases)
    case written
    with that(2) show ?thesis by (simp add: exit_status_def)
  qed simp_all
  from a b c d show ?thesis by blast
qed

lemma example_issue_processed:
  "\<exists>data. process_issues now
      [JObj [(''key'', JStr ''A-1''),
             (''fields'', JObj [(''status'', JObj [(''name'', JStr ''Done'')]),
                                (''resolutiondate'', JStr ''2026-02-15T10:00:00Z'')])]]
      [\<lparr>iv_start = ''2026-01-07'', iv_end = ''2026-01-31'', iv_label = ''January 2026''\<rparr>,
       \<lparr>iv_start = ''2026-02-01'', iv_end = ''2026-02-28'', iv_label = ''February 2026''\<rparr>,
       \<lparr>iv_start = ''2026-03-01'', iv_end = ''2026-03-31'', iv_label = ''March 2026''\<rparr>]
      [] [] = Inr data"
proof -
  have d: "get_effective_date
      (JObj [(''key'', JStr ''A-1''),
             (''fields'', JObj [(''status'', JObj [(''name'', JStr ''Done'')]),
                                (''resolutiondate'', JStr ''2026-02-15T10:00:00Z'')])])
      = Inr (Some (Datetime 2026 2 15))"
    by (simp add: get_effective_date_def date_eval)
  have w: "week_label_of
      [\<lparr>iv_start = ''2026-01-07'', iv_end = ''2026-01-31'', iv_label = ''January 2026''\<rparr>,
       \<lparr>iv_start = ''2026-02-01'', iv_end = ''2026-02-28'', iv_label = ''February 2026''\<rparr>,
       \<lparr>iv_start = ''2026-03-01'', iv_end = ''2026-03-31'', iv_label = ''March 2026''\<rparr>]
      (JStr ''Done'') (Some (Datetime 2026 2 15)) = Inr (Some ''February 2026'')"
    by (simp add: week_label_of_def status_examples date_eval dt_le_def dt_less_def
          START_DATE_def)
  show ?thesis
    by (simp add: process_issues_def process_issue_def status_name_of_def parent_key_of_def
          status_examples d w py_sorted_def set_add_def)
qed

lemma example_fetch:
  "fetch_jira_issues ''user'' ''secret''
     (scripted_server
        [Response 200 (Some (JObj [(''issues'', JArr [])])),
         Response 200 (Some (JObj [(''issues'', JArr
           [JObj [(''key'', JStr ''A-1''),
                  (''fields'', JObj [(''status'', JObj [(''name'', JStr ''Done'')]),
                                     (''resolutiondate'', JStr ''2026-02-15T10:00:00Z'')])]])]))])
     0
   = Some (Inr ([JObj [(''key'', JStr ''A-1''),
                       (''fields'', JObj [(''status'', JObj [(''name'', JStr ''Done'')]),
                                          (''resolutiondate'', JStr ''2026-02-15T10:00:00Z'')])]],
                [], []), 2)"
  by (simp add: scripted_server_def fetch_jira_issues_def fetch_initiatives_def
        fetch_issues_by_jql_def fetch_issues_loop.simps child_issues_loop.simps
        fetch_epics_for_initiatives_def)

theorem main_succeeds_only_with_child_issues_witness:
  "main ''user'' ''secret'' example_dumps
     (scripted_server
        [Response 200 (Some (JObj [(''issues'', JArr [])])),
         Response 200 (Some (JObj [(''issues'', JArr
           [JObj [(''key'', JStr ''A-1''),
                  (''fields'', JObj [(''status'', JObj [(''name'', JStr ''Done'')]),
                                     (''resolutiondate'', JStr ''2026-02-15T10:00:00Z'')])]])]))])
     \<lparr>remote = 0, template_file = Some ''<b>__DASHBOARD_DATA__</b>'',
      output_file = None, utcnow = ''2026-03-02T06:15:00Z''\<rparr>
   = Some (Inr True,
       \<lparr>remote = 2, template_file = Some ''<b>__DASHBOARD_DATA__</b>'',
        output_file = Some ''<b>{}</b>'', utcnow = ''2026-03-02T06:15:00Z''\<rparr>)
   \<and> exit_status (Inr True) = 0
   \<and> fetch_jira_issues ''user'' ''secret''
        (scripted_server [Response 200 (Some (JObj [(''issues'', JArr [])])), Response 500 None]) 0
      = Some (Inr ([], [], []), 2)
   \<and> main ''user'' ''secret'' example_dumps
        (scripted_server [Response 200 (Some (JObj [(''issues'', JArr [])])), Response 500 None])
        \<lparr>remote = 0, template_file = Some ''<b>__DASHBOARD_DATA__</b>'',
         output_file = Some ''<b>old</b>'', utcnow = ''2026-03-02T06:15:00Z''\<rparr>
      = Some (Inr False,
          \<lparr>remote = 2, template_file = Some ''<b>__DASHBOARD_DATA__</b>'',
           output_file = Some ''<b>old</b>'', utcnow = ''2026-03-02T06:15:00Z''\<rparr>)
   \<and> main [] ''secret'' example_dumps
        (scripted_server [Response 200 (Some (JObj [(''issues'', JArr [])])), Response 500 None])
        \<lparr>remote = 0, template_file = Some ''<b>__DASHBOARD_DATA__</b>'',
         output_file = Some ''<b>old</b>'', utcnow = ''2026-03-02T06:15:00Z''\<rparr>
      = Some (Inr False,
          \<lparr>remote = 0, template_file = Some ''<b>__DASHBOARD_DATA__</b>'',
           output_file = Some ''<b>old</b>'', utcnow = ''2026-03-02T06:15:00Z''\<rparr>)"
proof -
  let ?srv1 = "scripted_server
        [Response 200 (Some (JObj [(''issues'', JArr [])])),
         Response 200 (Some (JObj [(''issues'', JArr
           [JObj [(''key'', JStr ''A-1''),
                  (''fields'', JObj [(''status'', JObj [(''name'', JStr ''Done'')]),
                                     (''resolutiondate'', JStr ''2026-02-15T10:00:00Z'')])]])]))]"
  let ?srv2 = "scripted_server
        [Response 200 (Some (JObj [(''issues'', JArr [])])), Response 500 None]"
  let ?w1 = "\<lparr>remote = 0 :: nat, template_file = Some ''<b>__DASHBOARD_DATA__</b>'',
      output_file = None, utcnow = ''2026-03-02T06:15:00Z''\<rparr>"
  let ?w2 = "\<lparr>remote = 0 :: nat, template_file = Some ''<b>__DASHBOARD_DATA__</b>'',
      output_file = Some ''<b>old</b>'', utcnow = ''2026-03-02T06:15:00Z''\<rparr>"
  from example_issue_processed [of "''2026-03-02T06:15:00Z''"] obtain data where
    data: "process_issues ''2026-03-02T06:15:00Z''
      [JObj [(''key'', JStr ''A-1''),
             (''fields'', JObj [(''status'', JObj [(''name'', JStr ''Done'')]),
                                (''resolutiondate'', JStr ''2026-02-15T10:00:00Z'')])]]
      [\<lparr>iv_start = ''2026-01-07'', iv_end = ''2026-01-31'', iv_label = ''January 2026''\<rparr>,
       \<lparr>iv_start = ''2026-02-01'', iv_end = ''2026-02-28'', iv_label = ''February 2026''\<rparr>,
       \<lparr>iv_start = ''2026-03-01'', iv_end = ''2026-03-31'', iv_label = ''March 2026''\<rparr>]
      [] [] = Inr data"
    by blast
  have html: "str_replace ''<b>__DASHBOARD_DATA__</b>'' ''__DASHBOARD_DATA__'' ''{}'' = ''<b>{}</b>''"
    by (simp add: str_replace.simps)
  have run1: "main ''user'' ''secret'' example_dumps ?srv1 ?w1
      = Some (Inr True, ?w1\<lparr>remote := 2, output_file := Some ''<b>{}</b>''\<rparr>)"
    by (simp add: main_def example_fetch generate_intervals_value data generate_html_def
          example_dumps_def html del: str_replace.simps)
  have fetch2: "fetch_jira_issues ''user'' ''secret'' ?srv2 0 = Some (Inr ([], [], []), 2)"
    by (simp add: scripted_server_def fetch_jira_issues_def fetch_initiatives_def
          fetch_issues_by_jql_def fetch_issues_loop.simps child_issues_loop.simps
          fetch_epics_for_initiatives_def)
  from main_succeeds_only_with_child_issues
         [of "''user''" "''secret''" example_dumps ?srv2 ?w2 _ _ "[]" "[]" 2] fetch2
  have run2: "main ''user'' ''secret'' example_dumps ?srv2 ?w2 = Some (Inr False, ?w2\<lparr>remote := 2\<rparr>)"
    by simp
  from main_succeeds_only_with_child_issues [of "[]" "''secret''" example_dumps ?srv2 ?w2]
  have run3: "main [] ''secret'' example_dumps ?srv2 ?w2 = Some (Inr False, ?w2)"
    by simp
  from run1 run2 run3 fetch2 show ?thesis
    by (simp add: exit_status_def)
qed

text \<open>
  Claim C9 as the specification words it makes a fetched child issue sufficient for a
  successful exit. A run against it: the fetch returns one child issue, the issue is
  processed, and the template file is missing, so \<^verbatim>\<open>open\<close> raises in \<^verbatim>\<open>generate_html\<close>
  and the script exits with status 1.
\<close>

theorem main_missing_template_counterexample:
  "fetch_jira_issues ''user'' ''secret''
     (scripted_server
        [Response 200 (Some (JObj [(''issues'', JArr [])])),
         Response 200 (Some (JObj [(''issues'', JArr
           [JObj [(''key'', JStr ''A-1''),
                  (''fields'', JObj [(''status'', JObj [(''name'', JStr ''Done'')]),
                                     (''resolutiondate'', JStr ''2026-02-15T10:00:00Z'')])]])]))])
     0
   = Some (Inr ([JObj [(''key'', JStr ''A-1''),
                       (''fields'', JObj [(''status'', JObj [(''name'', JStr ''Done'')]),
                                          (''resolutiondate'', JStr ''2026-02-15T10:00:00Z'')])]],
                [], []), 2)
   \<and> main ''user'' ''secret'' example_dumps
     (scripted_server
        [Response 200 (Some (JObj [(''issues'', JArr [])])),
         Response 200 (Some (JObj [(''issues'', JArr
           [JObj [(''key'', JStr ''A-1''),
                  (''fields'', JObj [(''status'', JObj [(''name'', JStr ''Done'')]),
                                     (''resolutiondate'', JStr ''2026-02-15T10:00:00Z'')])]])]))])
     \<lparr>remote = 0, template_file = None, output_file = None,
      utcnow = ''2026-03-02T06:15:00Z''\<rparr>
   = Some (Inl FileNotFoundError,
       \<lparr>remote = 2, template_file = None, output_file = None,
        utcnow = ''2026-03-02T06:15:00Z''\<rparr>)
   \<and> exit_status (Inl FileNotFoundError) = 1"
proof -
  from example_issue_processed [of "''2026-03-02T06:15:00Z''"] obtain data where
    data: "process_issues ''2026-03-02T06:15:00Z''
      [JObj [(''key'', JStr ''A-1''),
             (''fields'', JObj [(''status'', JObj [(''name'', JStr ''Done'')]),
                                (''resolutiondate'', JStr ''2026-02-15T10:00:00Z'')])]]
      [\<lparr>iv_start = ''2026-01-07'', iv_end = ''2026-01-31'', iv_label = ''January 2026''\<rparr>,
       \<lparr>iv_start = ''2026-02-01'', iv_end = ''2026-02-28'', iv_label = ''February 2026''\<rparr>,
       \<lparr>iv_start = ''2026-03-01'', iv_end = ''2026-03-31'', iv_label = ''March 2026''\<rparr>]
      [] [] = Inr data"
    by blast
  show ?thesis
    by (simp add: main_def example_fetch generate_intervals_value data generate_html_def
          exit_status_def)
qed

end
